theory Spec2Isabelle
  imports
    Complex_Main
    "HOL-Library.AList"
    "HOL-Library.Log_Nat"
    "HOL-Library.Char_ord"
    "HOL-Library.List_Lexorder"
begin

section \<open>Python values used by \<open>parsers/AU_capacity.py\<close>\<close>

text \<open>
  The script reads a JSON document with \<open>json.loads\<close>, walks the resulting dictionaries
  and prints a dictionary with \<open>json.dumps\<close>. The values it handles are therefore the
  values \<open>json.loads\<close> produces: \<open>None\<close>, booleans, unbounded integers, binary64 floats,
  strings, lists and dictionaries with string keys.

  A Python dictionary keeps its keys in insertion order and holds each key once. It is an
  association list here: \<open>map_of\<close> is the lookup, \<open>AList.update\<close> is the item assignment
  (a present key keeps its place, a new key goes to the end), and the list order is the
  iteration order. A well-formed dictionary has distinct keys.

  A finite float is carried by its exact rational value; the sign of a zero is not
  represented.
\<close>

datatype pyfloat = FFin rat | FPosInf | FNegInf | FNaN

datatype json =
    JNull
  | JBool bool
  | JInt int
  | JFloat pyfloat
  | JStr string
  | JArr "json list"
  | JObj "(string \<times> json) list"

datatype pyerror =
    KeyError json
  | TypeError
  | AttributeError
  | ValueError
  | OverflowError
  | InvalidOperation
  | DecimalOverflow
  | JSONDecodeError
  | RecursionError
  | OSError
  | ConnectionError

text \<open>\<open>d[k]\<close> for a string constant \<open>k\<close>: a dictionary looks the key up and raises
  \<open>KeyError\<close> when it is absent; every other JSON value raises \<open>TypeError\<close> (a list or a
  string wants integer indices, the rest are not subscriptable).\<close>

fun subscript :: "json \<Rightarrow> string \<Rightarrow> pyerror + json" where
  "subscript (JObj kvs) k =
     (case map_of kvs k of None \<Rightarrow> Inl (KeyError (JStr k)) | Some v \<Rightarrow> Inr v)"
| "subscript _ k = Inl TypeError"

text \<open>\<open>d.items()\<close>: only a dictionary has the method.\<close>

fun items :: "json \<Rightarrow> pyerror + (string \<times> json) list" where
  "items (JObj kvs) = Inr kvs"
| "items _ = Inl AttributeError"

text \<open>\<open>s.startswith(p)\<close> on strings.\<close>

definition startswith :: "string \<Rightarrow> string \<Rightarrow> bool" where
  "startswith s p = (take (length p) s = p)"

section \<open>Numbers: binary64 floats and \<open>decimal.Decimal\<close>\<close>

text \<open>Rounding a rational to the nearest integer, ties to the even one.\<close>

definition round_half_even :: "rat \<Rightarrow> int" where
  "round_half_even q =
     (let f = \<lfloor>q\<rfloor>; d = q - of_int f
      in if d < 1 / 2 then f
         else if 1 / 2 < d then f + 1
         else if even f then f else f + 1)"

text \<open>\<open>ilog b q\<close> is \<open>\<lfloor>log\<^sub>b q\<rfloor>\<close> for a positive rational \<open>q\<close>: one less than the
  number of base-\<open>b\<close> digits of the integer part when \<open>q \<ge> 1\<close>, and minus the least \<open>k\<close> with
  \<open>q * b ^ k \<ge> 1\<close> otherwise.\<close>

definition ilog :: "nat \<Rightarrow> rat \<Rightarrow> int" where
  "ilog b q =
     (if 1 \<le> q then int (floorlog b (nat \<lfloor>q\<rfloor>)) - 1
      else - int (floorlog b (nat (\<lceil>1 / q\<rceil> - 1))))"

text \<open>Rounding \<open>q\<close> to a multiple of \<open>b\<^sup>e\<close>, half-even.\<close>

definition round_to :: "rat \<Rightarrow> int \<Rightarrow> rat \<Rightarrow> rat" where
  "round_to b e q = of_int (round_half_even (q / (b powi e))) * (b powi e)"

text \<open>The binary64 nearest to a rational (53 significant bits, least exponent
  \<open>2\<^sup>-\<^sup>1\<^sup>0\<^sup>7\<^sup>4\<close>, ties to even); a magnitude that rounds to \<open>2\<^sup>1\<^sup>0\<^sup>2\<^sup>4\<close> or more is an
  infinity. This is what a float literal denotes and what \<open>float(str)\<close> returns.\<close>

definition b64 :: "rat \<Rightarrow> pyfloat" where
  "b64 q =
     (if q = 0 then FFin 0
      else let r = round_to 2 (max (ilog 2 \<bar>q\<bar> - 52) (- 1074)) q
           in if r \<noteq> 0 \<and> 1023 < ilog 2 \<bar>r\<bar> then (if 0 < r then FPosInf else FNegInf)
              else FFin r)"

datatype decimal = DFin rat | DPosInf | DNegInf | DNaN | DSNaN

text \<open>The default context of the \<open>decimal\<close> module: precision 28, \<open>ROUND_HALF_EVEN\<close>,
  \<open>Emax = 999999\<close>, \<open>Emin = -999999\<close> (so \<open>Etiny = -1000026\<close>), with \<open>InvalidOperation\<close> and
  \<open>Overflow\<close> trapped. \<open>context_round\<close> is the rounding every arithmetic result goes
  through: 28 significant digits, no digit below \<open>10\<^sup>E\<^sup>t\<^sup>i\<^sup>n\<^sup>y\<close>, and \<open>Overflow\<close> when
  the rounded result is \<open>10\<^sup>E\<^sup>m\<^sup>a\<^sup>x\<^sup>+\<^sup>1\<close> or more in magnitude.\<close>

definition context_round :: "rat \<Rightarrow> pyerror + decimal" where
  "context_round q =
     (if q = 0 then Inr (DFin 0)
      else let r = round_to 10 (max (ilog 10 \<bar>q\<bar> - 27) (- 1000026)) q
           in if r \<noteq> 0 \<and> 999999 < ilog 10 \<bar>r\<bar> then Inl DecimalOverflow else Inr (DFin r))"

text \<open>\<open>a + b\<close> on \<open>Decimal\<close>s: a signalling NaN and \<open>Infinity + -Infinity\<close> raise, a quiet
  NaN propagates, an infinity absorbs, and a finite sum is the exact sum rounded by the
  context.\<close>

fun dec_add :: "decimal \<Rightarrow> decimal \<Rightarrow> pyerror + decimal" where
  "dec_add DSNaN _ = Inl InvalidOperation"
| "dec_add _ DSNaN = Inl InvalidOperation"
| "dec_add DNaN _ = Inr DNaN"
| "dec_add _ DNaN = Inr DNaN"
| "dec_add DPosInf DNegInf = Inl InvalidOperation"
| "dec_add DNegInf DPosInf = Inl InvalidOperation"
| "dec_add DPosInf _ = Inr DPosInf"
| "dec_add _ DPosInf = Inr DPosInf"
| "dec_add DNegInf _ = Inr DNegInf"
| "dec_add _ DNegInf = Inr DNegInf"
| "dec_add (DFin a) (DFin b) = context_round (a + b)"

text \<open>\<open>decimal.Decimal(v)\<close> for a value out of the parsed registry. The constructor is
  exact (it does not use the context): an integer, a boolean and a float give their value,
  \<open>None\<close> and a dictionary raise \<open>TypeError\<close>. Construction from a string or a sequence is the
  library's own parser; it is the parameter \<open>dlib\<close>.\<close>

fun Decimal :: "(json \<Rightarrow> pyerror + decimal) \<Rightarrow> json \<Rightarrow> pyerror + decimal" where
  "Decimal dlib (JInt i) = Inr (DFin (of_int i))"
| "Decimal dlib (JBool b) = Inr (DFin (if b then 1 else 0))"
| "Decimal dlib (JFloat (FFin q)) = Inr (DFin q)"
| "Decimal dlib (JFloat FPosInf) = Inr DPosInf"
| "Decimal dlib (JFloat FNegInf) = Inr DNegInf"
| "Decimal dlib (JFloat FNaN) = Inr DNaN"
| "Decimal dlib JNull = Inl TypeError"
| "Decimal dlib (JObj kvs) = Inl TypeError"
| "Decimal dlib (JStr s) = dlib (JStr s)"
| "Decimal dlib (JArr xs) = dlib (JArr xs)"

text \<open>\<open>float(v)\<close> for a \<open>Decimal\<close>: the nearest binary64.\<close>

fun float_of_decimal :: "decimal \<Rightarrow> pyerror + pyfloat" where
  "float_of_decimal (DFin q) = Inr (b64 q)"
| "float_of_decimal DPosInf = Inr FPosInf"
| "float_of_decimal DNegInf = Inr FNegInf"
| "float_of_decimal DNaN = Inr FNaN"
| "float_of_decimal DSNaN = Inl ValueError"

text \<open>\<open>round(x, 2)\<close> for a float: the exact value of \<open>x\<close> is rounded half-even to two
  decimal places and the result is the binary64 nearest to that decimal; infinities and
  NaN are returned as they are.\<close>

fun round2 :: "pyfloat \<Rightarrow> pyerror + pyfloat" where
  "round2 (FFin q) =
     (case b64 (of_int (round_half_even (q * 100)) / 100) of
        FFin r \<Rightarrow> Inr (FFin r)
      | _ \<Rightarrow> Inl OverflowError)"
| "round2 x = Inr x"

text \<open>A float literal of the source text.\<close>

definition float_lit :: "rat \<Rightarrow> json" where
  "float_lit q = JFloat (b64 q)"

section \<open>Module constants\<close>

definition PRICE_MAPPING_DICTIONARY :: "(string \<times> string) list" where
  "PRICE_MAPPING_DICTIONARY =
     [(''AUS-NSW'', ''NSW1''),
      (''AUS-QLD'', ''QLD1''),
      (''AUS-SA'', ''SA1''),
      (''AUS-TAS'', ''TAS1''),
      (''AUS-VIC'', ''VIC1''),
      (''AUS-WA'', ''WA1'')]"

text \<open>\<open>zone_map = {v: k for k, v in PRICE_MAPPING_DICTIONARY.items()}\<close>\<close>

definition zone_map :: "(string \<times> string) list" where
  "zone_map = fold (\<lambda>(k, v) d. AList.update v k d) PRICE_MAPPING_DICTIONARY []"

definition STATE_BOUNDING_BOXES :: "(string \<times> json) list" where
  "STATE_BOUNDING_BOXES =
     [(''NSW1'', JArr [JArr [float_lit (1482695 / 10000), float_lit (- 364196 / 10000)],
                       JArr [float_lit (1499044 / 10000), float_lit (- 346395 / 10000)]]),
      (''NT1'', JArr [JArr [float_lit (1285001 / 10000), float_lit (- 264999 / 10000)],
                      JArr [float_lit (1385002 / 10000), float_lit (- 104684 / 10000)]]),
      (''QLD1'', JArr [JArr [float_lit (1375002 / 10000), float_lit (- 296706 / 10000)],
                       JArr [float_lit (1540488 / 10000), float_lit (- 87402 / 10000)]]),
      (''SA1'', JArr [JArr [float_lit (1285001 / 10000), float_lit (- 385706 / 10000)],
                      JArr [float_lit (1415001 / 10000), float_lit (- 254999 / 10000)]]),
      (''TAS1'', JArr [JArr [float_lit (1433372 / 10000), float_lit (- 441413 / 10000)],
                       JArr [float_lit (1489845 / 10000), float_lit (- 390715 / 10000)]]),
      (''VIC1'', JArr [JArr [float_lit (1404671 / 10000), float_lit (- 39645 / 1000)],
                       JArr [float_lit (1504721 / 10000), float_lit (- 334865 / 10000)]]),
      (''WA1'', JArr [JArr [float_lit (1124194 / 10000), float_lit (- 356379 / 10000)],
                      JArr [float_lit (1295001 / 10000), float_lit (- 132236 / 10000)]])]"

definition ZONE_BOILERPLATE :: "(string \<times> json) list" where
  "ZONE_BOILERPLATE =
     [(''contributors'',
         JArr [JStr ''https://github.com/brandongalbraith'',
               JStr ''https://github.com/jarek'',
               JStr ''https://github.com/corradio'',
               JStr ''https://github.com/AnthonyBriggs'']),
      (''flag_file_name'', JStr ''au.png''),
      (''parsers'',
         JObj [(''price'', JStr ''AU.fetch_price''),
               (''production'', JStr ''AU.fetch_production'')]),
      (''timezone'', JNull)]"

definition CACHE_FILE :: string where
  "CACHE_FILE = ''AU_opennem_facilities.json''"

definition REGISTRY_URL :: string where
  "REGISTRY_URL = ''https://data.opennem.org.au/facility/facility_registry.json''"

section \<open>The class \<open>OpenNEMZone\<close>\<close>

text \<open>The attribute \<open>bounding_box\<close> is the list \<open>[[None, None], [None, None]]\<close> of the
  south-west and north-east corners, each \<open>[longitude, latitude]\<close>; it is a pair of pairs
  here. The attribute \<open>capacity\<close> is a \<open>defaultdict(decimal.Decimal)\<close>: reading an absent
  key gives \<open>Decimal()\<close>, which is zero.\<close>

record OpenNEMZone =
  zone :: string
  bounding_box :: "(json \<times> json) \<times> (json \<times> json)"
  capacity :: "(string \<times> decimal) list"

definition OpenNEMZone_init :: "string \<Rightarrow> OpenNEMZone" where
  "OpenNEMZone_init z =
     \<lparr>zone = z, bounding_box = ((JNull, JNull), (JNull, JNull)), capacity = []\<rparr>"

definition capacity_get :: "(string \<times> decimal) list \<Rightarrow> string \<Rightarrow> decimal" where
  "capacity_get cap k = (case map_of cap k of None \<Rightarrow> DFin 0 | Some d \<Rightarrow> d)"

text \<open>A \<open>for\<close> loop whose body may raise: the first error ends it.\<close>

fun for_each :: "('s \<Rightarrow> 'a \<Rightarrow> 'e + 's) \<Rightarrow> 's \<Rightarrow> 'a list \<Rightarrow> 'e + 's" where
  "for_each body s [] = Inr s"
| "for_each body s (x # xs) =
     (case body s x of Inl e \<Rightarrow> Inl e | Inr s' \<Rightarrow> for_each body s' xs)"

text \<open>The four rewriting \<open>if\<close>s of \<open>update_capacity\<close>, in the order of the source; they
  are not \<open>elif\<close>s, each one tests what the one before left.\<close>

definition rewrite_gen_type :: "string \<Rightarrow> string" where
  "rewrite_gen_type gen_type =
     (let g1 = (if startswith gen_type ''gas_'' then ''gas'' else gen_type);
          g2 = (if g1 = ''battery_discharging'' then ''battery storage'' else g1);
          g3 = (if startswith g2 ''bioenergy_'' then ''biomass'' else g2);
          g4 = (if g3 = ''distillate'' then ''oil'' else g3)
      in g4)"

text \<open>The body of the loop of \<open>update_capacity\<close> on one \<open>(gen_code, gen_info)\<close> item.
  \<open>gen_info.get\<close> needs a dictionary and \<open>gen_type.startswith\<close> a string
  (\<open>AttributeError\<close> otherwise). \<open>self.capacity[gen_type] += Decimal(...)\<close> reads the
  old total, builds the \<open>Decimal\<close>, adds and stores.\<close>

fun update_capacity_item ::
  "(json \<Rightarrow> pyerror + decimal) \<Rightarrow> (string \<times> decimal) list \<Rightarrow> string \<times> json \<Rightarrow>
   pyerror + (string \<times> decimal) list" where
  "update_capacity_item dlib cap (gen_code, JObj gen_info) =
     (let gen_type = (case map_of gen_info ''fuel_tech'' of None \<Rightarrow> JNull | Some v \<Rightarrow> v)
      in if gen_type = JNull then Inr cap
         else if gen_type = JStr ''battery_charging'' \<or> gen_type = JStr ''pumps'' then Inr cap
         else
           (case gen_type of
              JStr s \<Rightarrow>
                (let k = rewrite_gen_type s; old = capacity_get cap k
                 in case subscript (JObj gen_info) ''registered_capacity'' of
                      Inl e \<Rightarrow> Inl e
                    | Inr rc \<Rightarrow>
                        (case Decimal dlib rc of
                           Inl e \<Rightarrow> Inl e
                         | Inr d \<Rightarrow>
                             (case dec_add old d of
                                Inl e \<Rightarrow> Inl e
                              | Inr new \<Rightarrow> Inr (AList.update k new cap))))
            | _ \<Rightarrow> Inl AttributeError))"
| "update_capacity_item dlib cap (gen_code, _) = Inl AttributeError"

definition update_capacity ::
  "(json \<Rightarrow> pyerror + decimal) \<Rightarrow> OpenNEMZone \<Rightarrow> json \<Rightarrow> pyerror + OpenNEMZone" where
  "update_capacity dlib self duid_data =
     (case items duid_data of
        Inl e \<Rightarrow> Inl e
      | Inr gens \<Rightarrow>
          (case for_each (update_capacity_item dlib) (capacity self) gens of
             Inl e \<Rightarrow> Inl e
           | Inr cap \<Rightarrow> Inr (self\<lparr>capacity := cap\<rparr>)))"

text \<open>\<open>update_from_facility_data\<close>: the argument of \<open>debug\<close> is evaluated although
  \<open>DEBUG\<close> is off, so \<open>data['station_id']\<close> is read; the call of \<open>update_bounds\<close> is
  commented out in the source.\<close>

definition update_from_facility_data ::
  "(json \<Rightarrow> pyerror + decimal) \<Rightarrow> OpenNEMZone \<Rightarrow> json \<Rightarrow> pyerror + OpenNEMZone" where
  "update_from_facility_data dlib self data =
     (case subscript data ''station_id'' of
        Inl e \<Rightarrow> Inl e
      | Inr _ \<Rightarrow>
          (case subscript data ''duid_data'' of
             Inl e \<Rightarrow> Inl e
           | Inr duid_data \<Rightarrow> update_capacity dlib self duid_data))"

text \<open>\<open>round(float(v), 2)\<close>\<close>

definition round_float_2 :: "decimal \<Rightarrow> pyerror + json" where
  "round_float_2 v =
     (case float_of_decimal v of
        Inl e \<Rightarrow> Inl e
      | Inr x \<Rightarrow> (case round2 x of Inl e \<Rightarrow> Inl e | Inr r \<Rightarrow> Inr (JFloat r)))"

text \<open>The comprehension \<open>{k: round(float(v), 2) for k, v in self.capacity.items()}\<close>\<close>

definition rounded_capacity :: "(string \<times> decimal) list \<Rightarrow> pyerror + (string \<times> json) list" where
  "rounded_capacity cap =
     for_each
       (\<lambda>d (k, v). case round_float_2 v of
                      Inl e \<Rightarrow> Inl e
                    | Inr r \<Rightarrow> Inr (AList.update k r d))
       [] cap"

text \<open>The method \<open>output\<close> (\<open>output_dict\<close> here, the name is taken in Isabelle): the
  bounding box is read from \<open>STATE_BOUNDING_BOXES\<close>, the capacity is the comprehension
  above, and \<open>output.update(ZONE_BOILERPLATE)\<close> assigns the boilerplate items one by
  one.\<close>

definition output_dict :: "OpenNEMZone \<Rightarrow> pyerror + (string \<times> json) list" where
  "output_dict self =
     (case map_of STATE_BOUNDING_BOXES (zone self) of
        None \<Rightarrow> Inl (KeyError (JStr (zone self)))
      | Some box \<Rightarrow>
          (case rounded_capacity (capacity self) of
             Inl e \<Rightarrow> Inl e
           | Inr cap \<Rightarrow>
               Inr (fold (\<lambda>(k, v) d. AList.update k v d) ZONE_BOILERPLATE
                      [(''bounding_box'', box), (''capacity'', JObj cap)])))"

text \<open>\<open>a < b\<close> on values of the registry. Integers, booleans and floats compare by value
  (a NaN is below nothing and above nothing); the comparison of other operands (strings,
  lists, or a \<open>TypeError\<close>) is the interpreter's and is the parameter \<open>cmp\<close>.\<close>

fun number_value :: "json \<Rightarrow> pyfloat option" where
  "number_value (JInt i) = Some (FFin (of_int i))"
| "number_value (JBool b) = Some (FFin (if b then 1 else 0))"
| "number_value (JFloat x) = Some x"
| "number_value _ = None"

fun float_lt :: "pyfloat \<Rightarrow> pyfloat \<Rightarrow> bool" where
  "float_lt FNaN _ = False"
| "float_lt _ FNaN = False"
| "float_lt _ FNegInf = False"
| "float_lt FNegInf _ = True"
| "float_lt FPosInf _ = False"
| "float_lt _ FPosInf = True"
| "float_lt (FFin a) (FFin b) = (a < b)"

definition py_lt :: "(json \<Rightarrow> json \<Rightarrow> pyerror + bool) \<Rightarrow> json \<Rightarrow> json \<Rightarrow> pyerror + bool" where
  "py_lt cmp a b =
     (case (number_value a, number_value b) of
        (Some x, Some y) \<Rightarrow> Inr (float_lt x y)
      | _ \<Rightarrow> cmp a b)"

text \<open>\<open>if cur is None or v < cur: cur = v\<close>, and the same with \<open>v > cur\<close>.\<close>

definition lower_to ::
  "(json \<Rightarrow> json \<Rightarrow> pyerror + bool) \<Rightarrow> json \<Rightarrow> json \<Rightarrow> pyerror + json" where
  "lower_to cmp cur v =
     (if cur = JNull then Inr v
      else case py_lt cmp v cur of Inl e \<Rightarrow> Inl e | Inr b \<Rightarrow> Inr (if b then v else cur))"

definition raise_to ::
  "(json \<Rightarrow> json \<Rightarrow> pyerror + bool) \<Rightarrow> json \<Rightarrow> json \<Rightarrow> pyerror + json" where
  "raise_to cmp cur v =
     (if cur = JNull then Inr v
      else case py_lt cmp cur v of Inl e \<Rightarrow> Inl e | Inr b \<Rightarrow> Inr (if b then v else cur))"

text \<open>\<open>update_bounds\<close>: the latitude moves \<open>bounding_box[0][1]\<close> and \<open>bounding_box[1][1]\<close>,
  then the longitude moves \<open>bounding_box[0][0]\<close> and \<open>bounding_box[1][0]\<close>. Nothing in the
  script calls it.\<close>

definition update_bounds ::
  "(json \<Rightarrow> json \<Rightarrow> pyerror + bool) \<Rightarrow> OpenNEMZone \<Rightarrow> json \<Rightarrow> pyerror + OpenNEMZone" where
  "update_bounds cmp self location_data =
     (case subscript location_data ''latitude'' of
        Inl e \<Rightarrow> Inl e
      | Inr latitude \<Rightarrow>
          (case (if latitude = JNull then Inr (bounding_box self)
                 else case bounding_box self of
                   ((sw_lon, sw_lat), (ne_lon, ne_lat)) \<Rightarrow>
                     (case lower_to cmp sw_lat latitude of
                        Inl e \<Rightarrow> Inl e
                      | Inr sw_lat' \<Rightarrow>
                          (case raise_to cmp ne_lat latitude of
                             Inl e \<Rightarrow> Inl e
                           | Inr ne_lat' \<Rightarrow> Inr ((sw_lon, sw_lat'), (ne_lon, ne_lat'))))) of
             Inl e \<Rightarrow> Inl e
           | Inr box1 \<Rightarrow>
               (case subscript location_data ''longitude'' of
                  Inl e \<Rightarrow> Inl e
                | Inr longitude \<Rightarrow>
                    (if longitude = JNull then Inr (self\<lparr>bounding_box := box1\<rparr>)
                     else case box1 of
                       ((sw_lon, sw_lat), (ne_lon, ne_lat)) \<Rightarrow>
                         (case lower_to cmp sw_lon longitude of
                            Inl e \<Rightarrow> Inl e
                          | Inr sw_lon' \<Rightarrow>
                              (case raise_to cmp ne_lon longitude of
                                 Inl e \<Rightarrow> Inl e
                               | Inr ne_lon' \<Rightarrow>
                                   Inr (self\<lparr>bounding_box :=
                                               ((sw_lon', sw_lat), (ne_lon', ne_lat))\<rparr>)))))))"

section \<open>The script\<close>

subsection \<open>Loading the registry: cache file or HTTP\<close>

text \<open>What the script sees of the outside world, each call with its outcome:
  whether the cache file exists (\<open>os.path.exists\<close>); the naive datetime \<open>then\<close> of the
  file's modification time, or the exception of \<open>os.stat\<close> or \<open>datetime.fromtimestamp\<close>;
  the naive datetime \<open>now\<close> (both datetimes in microseconds); the text read from the cache
  file, or the exception of \<open>open(CACHE_FILE).read()\<close>; the text the registry URL answers
  with, or the exception of \<open>requests.get\<close>; and the exception of
  \<open>open(CACHE_FILE, 'w').write(...)\<close>, if it raises one.

  \<open>json.loads\<close> is a parameter: it returns the parsed value or raises; the exception is
  \<open>JSONDecodeError\<close> for a text that is not JSON, and it can be another one (a
  \<open>RecursionError\<close> for a text nested too deep, a \<open>ValueError\<close> for an integer of more
  digits than the interpreter converts).

  What the script does to the outside world is the list of events, in order; an event
  is recorded when the call is made, whether it then raises or not.\<close>

record environment =
  file_exists :: bool
  file_then :: "pyerror + int"
  clock_now :: int
  file_text :: "pyerror + string"
  response_text :: "pyerror + string"
  write_error :: "pyerror option"

datatype event = ReadFile string | HttpGet string | WriteFile string string

definition seven_days :: int where
  "seven_days = 7 * 86400 * 1000000"

text \<open>Lines 136 to 146: \<open>facility_data\<close> after the attempt to load from the cache, or the
  exception that ends the run there. The \<open>except\<close> clause catches \<open>JSONDecodeError\<close> and
  nothing else, and the read is outside the \<open>try\<close>.\<close>

definition load_from_cache ::
  "(string \<Rightarrow> pyerror + json) \<Rightarrow> environment \<Rightarrow> (pyerror + string option) \<times> event list" where
  "load_from_cache json_loads env =
     (if file_exists env then
        (case file_then env of
           Inl e \<Rightarrow> (Inl e, [])
         | Inr then_time \<Rightarrow>
             (if clock_now env - then_time < seven_days then
                (case file_text env of
                   Inl e \<Rightarrow> (Inl e, [ReadFile CACHE_FILE])
                 | Inr text \<Rightarrow>
                     (case json_loads text of
                        Inr facilities \<Rightarrow> (Inr (Some text), [ReadFile CACHE_FILE])
                      | Inl e \<Rightarrow>
                          (if e = JSONDecodeError then (Inr None, [ReadFile CACHE_FILE])
                           else (Inl e, [ReadFile CACHE_FILE]))))
              else (Inr None, [])))
      else (Inr None, []))"

text \<open>Lines 150 to 154: the GET, and the write of the answer to the cache file.\<close>

definition refresh :: "environment \<Rightarrow> event list \<Rightarrow> (pyerror + string) \<times> event list" where
  "refresh env evs =
     (case response_text env of
        Inl e \<Rightarrow> (Inl e, evs @ [HttpGet REGISTRY_URL])
      | Inr text \<Rightarrow>
          (case write_error env of
             Some e \<Rightarrow> (Inl e, evs @ [HttpGet REGISTRY_URL, WriteFile CACHE_FILE text])
           | None \<Rightarrow> (Inr text, evs @ [HttpGet REGISTRY_URL, WriteFile CACHE_FILE text])))"

text \<open>Lines 136 to 154: \<open>if not facility_data\<close> holds for \<open>None\<close> and for the empty string.\<close>

definition load_facility_data ::
  "(string \<Rightarrow> pyerror + json) \<Rightarrow> environment \<Rightarrow> (pyerror + string) \<times> event list" where
  "load_facility_data json_loads env =
     (case load_from_cache json_loads env of
        (Inl e, evs) \<Rightarrow> (Inl e, evs)
      | (Inr facility_data, evs) \<Rightarrow>
          (case facility_data of
             None \<Rightarrow> refresh env evs
           | Some text \<Rightarrow> (if text = [] then refresh env evs else (Inr text, evs))))"

text \<open>Line 156: \<open>facilities = json.loads(facility_data)\<close>\<close>

definition parsed_facilities :: "(string \<Rightarrow> pyerror + json) \<Rightarrow> environment \<Rightarrow> pyerror + json" where
  "parsed_facilities json_loads env =
     (case fst (load_facility_data json_loads env) of
        Inl e \<Rightarrow> Inl e
      | Inr facility_data \<Rightarrow> json_loads facility_data)"

subsection \<open>Aggregating the facilities\<close>

text \<open>\<open>zones = {zone: OpenNEMZone(zone) for zone in zone_map.keys()}\<close>\<close>

definition zones_init :: "(string \<times> OpenNEMZone) list" where
  "zones_init = fold (\<lambda>z d. AList.update z (OpenNEMZone_init z) d) (map fst zone_map) []"

text \<open>\<open>zones[key]\<close> for a value of the registry as key: a list or a dictionary is
  unhashable (\<open>TypeError\<close>); the keys of \<open>zones\<close> are strings, so any other value that is
  not one of them is a \<open>KeyError\<close>. The key is returned with the zone, for the write-back
  of the mutated object.\<close>

fun zones_getitem ::
  "(string \<times> OpenNEMZone) list \<Rightarrow> json \<Rightarrow> pyerror + string \<times> OpenNEMZone" where
  "zones_getitem zones (JStr s) =
     (case map_of zones s of None \<Rightarrow> Inl (KeyError (JStr s)) | Some z \<Rightarrow> Inr (s, z))"
| "zones_getitem zones (JArr xs) = Inl TypeError"
| "zones_getitem zones (JObj kvs) = Inl TypeError"
| "zones_getitem zones v = Inl (KeyError v)"

text \<open>The body of the loop over \<open>facilities.items()\<close> (lines 163 to 169). The arguments
  of \<open>debug\<close> are evaluated, so \<open>facility['duid_data']\<close> is read first, and in the \<open>else\<close>
  branch \<open>facility['region_id']\<close> is read for the message.\<close>

definition process_facility ::
  "(json \<Rightarrow> pyerror + decimal) \<Rightarrow> (string \<times> OpenNEMZone) list \<Rightarrow> string \<times> json \<Rightarrow>
   pyerror + (string \<times> OpenNEMZone) list" where
  "process_facility dlib zones item =
     (case item of (facility_code, facility) \<Rightarrow>
        (case subscript facility ''duid_data'' of
           Inl e \<Rightarrow> Inl e
         | Inr _ \<Rightarrow>
             (case subscript facility ''status'' of
                Inl e \<Rightarrow> Inl e
              | Inr status \<Rightarrow>
                  (case subscript status ''state'' of
                     Inl e \<Rightarrow> Inl e
                   | Inr state \<Rightarrow>
                       (if state = JStr ''Commissioned'' then
                          (case subscript facility ''region_id'' of
                             Inl e \<Rightarrow> Inl e
                           | Inr region_id \<Rightarrow>
                               (case zones_getitem zones region_id of
                                  Inl e \<Rightarrow> Inl e
                                | Inr (key, z) \<Rightarrow>
                                    (case update_from_facility_data dlib z facility of
                                       Inl e \<Rightarrow> Inl e
                                     | Inr z' \<Rightarrow> Inr (AList.update key z' zones))))
                        else
                          (case subscript facility ''region_id'' of
                             Inl e \<Rightarrow> Inl e
                           | Inr _ \<Rightarrow> Inr zones))))))"

subsection \<open>Printing\<close>

text \<open>\<open>json_zones = {zone_map[z.zone]: z.output() for z in zones.values()}\<close>\<close>

definition json_zones ::
  "(string \<times> OpenNEMZone) list \<Rightarrow> pyerror + (string \<times> json) list" where
  "json_zones zones =
     for_each
       (\<lambda>d z. case map_of zone_map (zone z) of
                 None \<Rightarrow> Inl (KeyError (JStr (zone z)))
               | Some code \<Rightarrow>
                   (case output_dict z of
                      Inl e \<Rightarrow> Inl e
                    | Inr out \<Rightarrow> Inr (AList.update code (JObj out) d)))
       [] (map snd zones)"

text \<open>\<open>json.dumps(..., sort_keys=True)\<close> writes the members of every dictionary in the
  order of their keys. \<open>dumps_sort_keys\<close> is the value in the order it is written; the
  layout of the text (indentation, the digits of a float) is not modelled.\<close>

fun dumps_sort_keys :: "json \<Rightarrow> json" where
  "dumps_sort_keys (JObj kvs) = JObj (sort_key fst (map (map_prod id dumps_sort_keys) kvs))"
| "dumps_sort_keys (JArr xs) = JArr (map dumps_sort_keys xs)"
| "dumps_sort_keys v = v"

subsection \<open>The whole run\<close>

text \<open>The events of the run and the JSON value that is printed (after the heading
  line), or the exception that ends the run.\<close>

definition main ::
  "(string \<Rightarrow> pyerror + json) \<Rightarrow> (json \<Rightarrow> pyerror + decimal) \<Rightarrow> environment \<Rightarrow>
   event list \<times> (pyerror + json)" where
  "main json_loads dlib env =
     (snd (load_facility_data json_loads env),
      case parsed_facilities json_loads env of
        Inl e \<Rightarrow> Inl e
      | Inr facilities \<Rightarrow>
          (case items facilities of
             Inl e \<Rightarrow> Inl e
           | Inr facs \<Rightarrow>
               (case for_each (process_facility dlib) zones_init facs of
                  Inl e \<Rightarrow> Inl e
                | Inr zones \<Rightarrow>
                    (case json_zones zones of
                       Inl e \<Rightarrow> Inl e
                     | Inr jz \<Rightarrow> Inr (dumps_sort_keys (JObj jz))))))"

section \<open>The specification's wording\<close>

text \<open>The fuel-type normalisation as the specification lists it: a consumer
  (\<open>battery_charging\<close>, \<open>pumps\<close>) is counted nowhere, \<open>gas_*\<close> is \<open>gas\<close>, \<open>bioenergy_*\<close> is
  \<open>biomass\<close>, \<open>distillate\<close> is \<open>oil\<close>, \<open>battery_discharging\<close> is \<open>battery storage\<close>, and
  any other fuel type keeps its name.\<close>

definition normalized_fuel_type :: "string \<Rightarrow> string option" where
  "normalized_fuel_type ft =
     (if ft = ''battery_charging'' \<or> ft = ''pumps'' then None
      else if startswith ft ''gas_'' then Some ''gas''
      else if startswith ft ''bioenergy_'' then Some ''biomass''
      else if ft = ''distillate'' then Some ''oil''
      else if ft = ''battery_discharging'' then Some ''battery storage''
      else Some ft)"

text \<open>\<open>facility['status']['state']\<close>\<close>

definition status_state :: "json \<Rightarrow> pyerror + json" where
  "status_state facility =
     (case subscript facility ''status'' of
        Inl e \<Rightarrow> Inl e
      | Inr status \<Rightarrow> subscript status ''state'')"





text \<open>The six zone codes, and the codes they are printed under.\<close>

definition zone_codes :: "string list" where
  "zone_codes = [''NSW1'', ''QLD1'', ''SA1'', ''TAS1'', ''VIC1'', ''WA1'']"

definition output_codes :: "string list" where
  "output_codes = [''AUS-NSW'', ''AUS-QLD'', ''AUS-SA'', ''AUS-TAS'', ''AUS-VIC'', ''AUS-WA'']"

text \<open>A fresh valid cache: the file exists, its modification time is strictly less than
  seven days before the current time, and its contents parse as JSON.\<close>

definition fresh_valid_cache :: "(string \<Rightarrow> pyerror + json) \<Rightarrow> environment \<Rightarrow> bool" where
  "fresh_valid_cache json_loads env =
     (file_exists env \<and>
      (case file_then env of
         Inl e \<Rightarrow> False
       | Inr then_time \<Rightarrow> clock_now env - then_time < seven_days) \<and>
      (case file_text env of
         Inl e \<Rightarrow> False
       | Inr text \<Rightarrow> (case json_loads text of Inl e \<Rightarrow> False | Inr facilities \<Rightarrow> True)))"

text \<open>A cache to refresh: the file is absent, or its modification time is seven days or
  more before the current time, or it is fresh, it is read, and \<open>json.loads\<close> rejects its
  contents with \<open>JSONDecodeError\<close>.\<close>

definition cache_to_refresh :: "(string \<Rightarrow> pyerror + json) \<Rightarrow> environment \<Rightarrow> bool" where
  "cache_to_refresh json_loads env =
     (if file_exists env then
        (case file_then env of
           Inl e \<Rightarrow> False
         | Inr then_time \<Rightarrow>
             (if clock_now env - then_time < seven_days then
                (case file_text env of
                   Inl e \<Rightarrow> False
                 | Inr text \<Rightarrow> json_loads text = Inl JSONDecodeError)
              else True))
      else True)"

text \<open>The exception that looking at an existing cache file raises, if any: that of the
  modification time, that of the read of a fresh file, or that of \<open>json.loads\<close> on its
  contents when it is not \<open>JSONDecodeError\<close>.\<close>

definition cache_failure :: "(string \<Rightarrow> pyerror + json) \<Rightarrow> environment \<Rightarrow> pyerror option" where
  "cache_failure json_loads env =
     (if file_exists env then
        (case file_then env of
           Inl e \<Rightarrow> Some e
         | Inr then_time \<Rightarrow>
             (if clock_now env - then_time < seven_days then
                (case file_text env of
                   Inl e \<Rightarrow> Some e
                 | Inr text \<Rightarrow>
                     (case json_loads text of
                        Inl e \<Rightarrow> (if e = JSONDecodeError then None else Some e)
                      | Inr facilities \<Rightarrow> None))
              else None))
      else None)"

text \<open>The events that are network requests.\<close>

fun is_http_request :: "event \<Rightarrow> bool" where
  "is_http_request (HttpGet url) = True"
| "is_http_request _ = False"

text \<open>Every dictionary of a value has its keys in ascending order.\<close>

fun keys_sorted :: "json \<Rightarrow> bool" where
  "keys_sorted (JObj kvs) = (sorted (map fst kvs) \<and> list_all (\<lambda>(k, v). keys_sorted v) kvs)"
| "keys_sorted (JArr xs) = list_all keys_sorted xs"
| "keys_sorted v = True"

text \<open>The entry of one zone: the bounding box of the static table and the rounded
  capacities, followed by the boilerplate.\<close>

definition merged_entry :: "string \<Rightarrow> (string \<times> json) list \<Rightarrow> (string \<times> json) list" where
  "merged_entry code cap =
     (''bounding_box'', case map_of STATE_BOUNDING_BOXES code of None \<Rightarrow> JNull | Some box \<Rightarrow> box) #
     (''capacity'', JObj cap) # ZONE_BOILERPLATE"

text \<open>A member of the printed object belongs to a zone: its key is the zone's code under
  the inverse mapping, and its value is the zone's entry with sorted keys.\<close>

definition printed_as :: "string \<times> OpenNEMZone \<Rightarrow> string \<times> json \<Rightarrow> bool" where
  "printed_as zone_item member =
     (case zone_item of (code, z) \<Rightarrow>
        (case member of (key, entry) \<Rightarrow>
           map_of zone_map code = Some key \<and>
           map_of PRICE_MAPPING_DICTIONARY key = Some code \<and>
           (case rounded_capacity (capacity z) of
              Inl e \<Rightarrow> False
            | Inr cap \<Rightarrow> entry = dumps_sort_keys (JObj (merged_entry code cap)))))"

text \<open>The shape \<open>zones\<close> has from its construction on: the six codes as keys, each with
  the zone object of that code.\<close>

definition zones_shape :: "(string \<times> OpenNEMZone) list \<Rightarrow> bool" where
  "zones_shape zones =
     (map fst zones = zone_codes \<and> map (\<lambda>p. zone (snd p)) zones = zone_codes)"

text \<open>Rounding a rational to two decimal places, ties to the even digit.\<close>

definition two_places :: "rat \<Rightarrow> rat" where
  "two_places q = of_int (round_half_even (q * 100)) / 100"

text \<open>The contributions to the total of the fuel type \<open>k\<close>: the \<open>Decimal\<close> of the
  \<open>registered_capacity\<close> of every DUID whose fuel type is counted as \<open>k\<close>, in the order of the
  DUIDs.\<close>

fun contribution :: "(json \<Rightarrow> pyerror + decimal) \<Rightarrow> string \<Rightarrow> string \<times> json \<Rightarrow> decimal list" where
  "contribution dlib k (gen_code, JObj gen_info) =
     (case map_of gen_info ''fuel_tech'' of
        Some (JStr ft) \<Rightarrow>
          (if normalized_fuel_type ft = Some k then
             (case map_of gen_info ''registered_capacity'' of
                None \<Rightarrow> []
              | Some rc \<Rightarrow> (case Decimal dlib rc of Inl e \<Rightarrow> [] | Inr d \<Rightarrow> [d]))
           else [])
      | _ \<Rightarrow> [])"
| "contribution dlib k (gen_code, _) = []"

definition contributions ::
  "(json \<Rightarrow> pyerror + decimal) \<Rightarrow> string \<Rightarrow> (string \<times> json) list \<Rightarrow> decimal list" where
  "contributions dlib k gens = concat (map (contribution dlib k) gens)"

text \<open>The context's rounding changes no partial sum of \<open>t + q\<^sub>1 + \<dots> + q\<^sub>n\<close>.\<close>

fun exact_steps :: "rat \<Rightarrow> rat list \<Rightarrow> bool" where
  "exact_steps t [] = True"
| "exact_steps t (q # qs) =
     (context_round (t + q) = Inr (DFin (t + q)) \<and> exact_steps (t + q) qs)"

text \<open>A nonnegative multiple of \<open>2\<^sup>-\<^sup>j\<close>.\<close>

definition binary_fraction :: "nat \<Rightarrow> rat \<Rightarrow> bool" where
  "binary_fraction j q = (0 \<le> q \<and> of_int \<lfloor>q * 2 ^ j\<rfloor> = q * 2 ^ j)"

text \<open>The fuel type a DUID entry is counted under, by the specification's normalisation;
  \<open>None\<close> for an entry that is counted nowhere.\<close>

definition counted_under :: "string \<times> json \<Rightarrow> string option" where
  "counted_under item =
     (case snd item of
        JObj gen_info \<Rightarrow>
          (case map_of gen_info ''fuel_tech'' of
             Some (JStr ft) \<Rightarrow> normalized_fuel_type ft
           | _ \<Rightarrow> None)
      | _ \<Rightarrow> None)"

text \<open>A facility of the registry is commissioned: its status state equals
  \<open>Commissioned\<close>.\<close>

definition commissioned :: "string \<times> json \<Rightarrow> bool" where
  "commissioned item = (status_state (snd item) = Inr (JStr ''Commissioned''))"

text \<open>The contributions of a facility to the total of the fuel type \<open>k\<close> of the zone
  \<open>code\<close>: those of its DUIDs when it is commissioned and its \<open>region_id\<close> is \<open>code\<close>,
  none otherwise. The contributions of the registry are those of its facilities, in the
  order of the registry.\<close>

definition facility_contributions ::
  "(json \<Rightarrow> pyerror + decimal) \<Rightarrow> string \<Rightarrow> string \<Rightarrow> string \<times> json \<Rightarrow> decimal list" where
  "facility_contributions dlib code k item =
     (if commissioned item \<and> subscript (snd item) ''region_id'' = Inr (JStr code) then
        (case subscript (snd item) ''duid_data'' of
           Inr (JObj gens) \<Rightarrow> contributions dlib k gens
         | _ \<Rightarrow> [])
      else [])"

definition zone_contributions ::
  "(json \<Rightarrow> pyerror + decimal) \<Rightarrow> string \<Rightarrow> string \<Rightarrow> (string \<times> json) list \<Rightarrow> decimal list" where
  "zone_contributions dlib code k facs = concat (map (facility_contributions dlib code k) facs)"

text \<open>The \<open>capacity\<close> dictionary of the entry \<open>key\<close> of the output, if the output has
  one.\<close>

definition printed_capacities :: "json \<Rightarrow> string \<Rightarrow> (string \<times> json) list option" where
  "printed_capacities out key =
     (case out of
        JObj members \<Rightarrow>
          (case map_of members key of
             Some (JObj entry) \<Rightarrow>
               (case map_of entry ''capacity'' of
                  Some (JObj cap) \<Rightarrow> Some cap
                | _ \<Rightarrow> None)
           | _ \<Rightarrow> None)
      | _ \<Rightarrow> None)"

section \<open>A sample registry\<close>

text \<open>A small registry in the shape of the docstring of \<open>update_capacity\<close>, used to
  run the definitions on concrete data: a hydro station with a pump, a battery with its
  charging side, a retired station, a commissioned station in the Northern Territory, a
  station without \<open>region_id\<close> and a station with a location. The parameters for
  \<open>Decimal\<close> of a string and for the comparison of non-numbers are instantiated by
  functions that reject every argument; the sample data never reaches them.\<close>

definition reject_decimal :: "json \<Rightarrow> pyerror + decimal" where
  "reject_decimal v = Inl InvalidOperation"

definition reject_compare :: "json \<Rightarrow> json \<Rightarrow> pyerror + bool" where
  "reject_compare a b = Inl TypeError"

definition shoalhaven :: "(string \<times> json) list" where
  "shoalhaven =
     [(''station_id'', JStr ''SHOAL''),
      (''status'', JObj [(''state'', JStr ''Commissioned'')]),
      (''region_id'', JStr ''NSW1''),
      (''duid_data'',
         JObj [(''SHGEN'', JObj [(''fuel_tech'', JStr ''hydro''),
                                 (''registered_capacity'', JFloat (FFin 240))]),
               (''SHPUMP'', JObj [(''fuel_tech'', JStr ''pumps''),
                                  (''registered_capacity'', JFloat (FFin 240))])])]"

definition hornsdale :: "(string \<times> json) list" where
  "hornsdale =
     [(''station_id'', JStr ''HPR''),
      (''status'', JObj [(''state'', JStr ''Commissioned'')]),
      (''region_id'', JStr ''SA1''),
      (''duid_data'',
         JObj [(''HPRG1'', JObj [(''fuel_tech'', JStr ''battery_discharging''),
                                 (''registered_capacity'', JFloat (FFin 100))]),
               (''HPRL1'', JObj [(''fuel_tech'', JStr ''battery_charging''),
                                 (''registered_capacity'', JFloat (FFin 120))])])]"

definition retired_station :: "(string \<times> json) list" where
  "retired_station =
     [(''station_id'', JStr ''OLD''),
      (''status'', JObj [(''state'', JStr ''Retired'')]),
      (''region_id'', JStr ''NSW1''),
      (''duid_data'',
         JObj [(''OLD1'', JObj [(''fuel_tech'', JStr ''coal_black''),
                                (''registered_capacity'', JFloat (FFin 500))])])]"

definition darwin_station :: "(string \<times> json) list" where
  "darwin_station =
     [(''station_id'', JStr ''DKIS''),
      (''status'', JObj [(''state'', JStr ''Commissioned'')]),
      (''region_id'', JStr ''NT1''),
      (''duid_data'',
         JObj [(''DKIS1'', JObj [(''fuel_tech'', JStr ''gas_ocgt''),
                                 (''registered_capacity'', JFloat (FFin 40))])])]"

definition unplaced_station :: "(string \<times> json) list" where
  "unplaced_station =
     [(''station_id'', JStr ''LOST''),
      (''status'', JObj [(''state'', JStr ''Commissioned'')]),
      (''duid_data'',
         JObj [(''LOST1'', JObj [(''fuel_tech'', JStr ''wind''),
                                 (''registered_capacity'', JFloat (FFin 30))])])]"

definition sydney_location :: json where
  "sydney_location =
     JObj [(''latitude'', JFloat (FFin (- 271 / 8))), (''longitude'', JFloat (FFin (605 / 4)))]"

definition sydney_station :: "(string \<times> json) list" where
  "sydney_station =
     [(''station_id'', JStr ''SYD''),
      (''status'', JObj [(''state'', JStr ''Commissioned'')]),
      (''region_id'', JStr ''NSW1''),
      (''location'', sydney_location),
      (''duid_data'',
         JObj [(''SYD1'', JObj [(''fuel_tech'', JStr ''solar''),
                                (''registered_capacity'', JFloat (FFin 10))])])]"

text \<open>A station whose \<open>status\<close> is \<open>None\<close> and that has no \<open>region_id\<close>, and a
  commissioned station whose \<open>region_id\<close> is a list.\<close>

definition null_status_station :: "(string \<times> json) list" where
  "null_status_station =
     [(''station_id'', JStr ''NOSTAT''),
      (''status'', JNull),
      (''duid_data'',
         JObj [(''NOSTAT1'', JObj [(''fuel_tech'', JStr ''wind''),
                                   (''registered_capacity'', JFloat (FFin 30))])])]"

definition list_region_station :: "(string \<times> json) list" where
  "list_region_station =
     [(''station_id'', JStr ''LISTED''),
      (''status'', JObj [(''state'', JStr ''Commissioned'')]),
      (''region_id'', JArr [JStr ''NT1'']),
      (''duid_data'',
         JObj [(''LISTED1'', JObj [(''fuel_tech'', JStr ''gas_ocgt''),
                                   (''registered_capacity'', JFloat (FFin 40))])])]"

definition example_facilities :: "(string \<times> json) list" where
  "example_facilities =
     [(''SHOAL'', JObj shoalhaven), (''HPR'', JObj hornsdale), (''OLD'', JObj retired_station)]"

text \<open>A \<open>json.loads\<close> on the few texts of the examples; every other text is rejected with
  \<open>JSONDecodeError\<close>.\<close>

definition example_json_loads :: "string \<Rightarrow> pyerror + json" where
  "example_json_loads text =
     (case map_of
        [(''registry'', JObj example_facilities),
         (''registry with NT1'',
            JObj [(''SHOAL'', JObj shoalhaven), (''DKIS'', JObj darwin_station),
                  (''HPR'', JObj hornsdale)]),
         (''registry without region'',
            JObj [(''SHOAL'', JObj shoalhaven), (''LOST'', JObj unplaced_station),
                  (''HPR'', JObj hornsdale)]),
         (''registry with null status'',
            JObj [(''SHOAL'', JObj shoalhaven), (''NOSTAT'', JObj null_status_station),
                  (''HPR'', JObj hornsdale)]),
         (''registry with list region'',
            JObj [(''SHOAL'', JObj shoalhaven), (''LISTED'', JObj list_region_station),
                  (''HPR'', JObj hornsdale)])] text of
        None \<Rightarrow> Inl JSONDecodeError
      | Some facilities \<Rightarrow> Inr facilities)"

text \<open>The text of 100000 opening brackets, and a \<open>json.loads\<close> as far as the example
  consults it: on that text the parser's recursion is too deep and it raises
  \<open>RecursionError\<close>.\<close>

definition deep_text :: string where
  "deep_text = replicate 100000 CHR ''[''"

definition nesting_json_loads :: "string \<Rightarrow> pyerror + json" where
  "nesting_json_loads text =
     (if text = deep_text then Inl RecursionError else Inl JSONDecodeError)"

text \<open>A cache file one day old with the given text, and one seven days old; the
  registry URL answers with the empty text in the first and with a registry in the
  second.\<close>

definition cached_env :: "string \<Rightarrow> environment" where
  "cached_env text =
     \<lparr>file_exists = True, file_then = Inr 0, clock_now = 86400000000,
      file_text = Inr text, response_text = Inr [], write_error = None\<rparr>"

definition stale_env :: environment where
  "stale_env =
     \<lparr>file_exists = True, file_then = Inr 0, clock_now = 604800000000,
      file_text = Inr ''registry'', response_text = Inr ''registry with NT1'',
      write_error = None\<rparr>"

text \<open>The DUIDs of a station with every kind of fuel type, and the totals they give.\<close>

definition mixed_duids :: "(string \<times> json) list" where
  "mixed_duids =
     [(''G1'', JObj [(''fuel_tech'', JStr ''gas_ocgt''), (''registered_capacity'', JInt 40)]),
      (''P1'', JObj [(''fuel_tech'', JStr ''pumps''), (''registered_capacity'', JInt 240)]),
      (''B1'', JObj [(''fuel_tech'', JStr ''bioenergy_biogas''),
                     (''registered_capacity'', JInt 5)]),
      (''G2'', JObj [(''fuel_tech'', JStr ''gas_ccgt''), (''registered_capacity'', JInt 60)]),
      (''D1'', JObj [(''fuel_tech'', JStr ''distillate''), (''registered_capacity'', JInt 7)]),
      (''S1'', JObj [(''fuel_tech'', JStr ''battery_discharging''),
                     (''registered_capacity'', JInt 100)]),
      (''S2'', JObj [(''fuel_tech'', JStr ''battery_charging''),
                     (''registered_capacity'', JInt 120)]),
      (''N1'', JObj [(''registered_capacity'', JInt 9)]),
      (''W1'', JObj [(''fuel_tech'', JStr ''wind''), (''registered_capacity'', JInt 30)])]"

definition mixed_capacity :: "(string \<times> decimal) list" where
  "mixed_capacity =
     [(''gas'', DFin 100), (''biomass'', DFin 5), (''oil'', DFin 7),
      (''battery storage'', DFin 100), (''wind'', DFin 30)]"

text \<open>A single solar unit of \<open>0.1\<close>.\<close>

definition tenth_duids :: "(string \<times> json) list" where
  "tenth_duids =
     [(''SUN1'', JObj [(''fuel_tech'', JStr ''solar''),
                       (''registered_capacity'', float_lit (1 / 10))])]"

definition shoalhaven_zones :: "(string \<times> OpenNEMZone) list" where
  "shoalhaven_zones =
     AList.update ''NSW1'' ((OpenNEMZone_init ''NSW1'')\<lparr>capacity := [(''hydro'', DFin 240)]\<rparr>)
       zones_init"

definition example_zones :: "(string \<times> OpenNEMZone) list" where
  "example_zones =
     AList.update ''SA1''
       ((OpenNEMZone_init ''SA1'')\<lparr>capacity := [(''battery storage'', DFin 100)]\<rparr>)
       shoalhaven_zones"

definition sydney_zone :: OpenNEMZone where
  "sydney_zone = (OpenNEMZone_init ''NSW1'')\<lparr>capacity := [(''solar'', DFin 10)]\<rparr>"

definition example_output :: json where
  "example_output =
     JObj [(''AUS-NSW'', JObj (merged_entry ''NSW1'' [(''hydro'', JFloat (FFin 240))])),
           (''AUS-QLD'', JObj (merged_entry ''QLD1'' [])),
           (''AUS-SA'', JObj (merged_entry ''SA1'' [(''battery storage'', JFloat (FFin 100))])),
           (''AUS-TAS'', JObj (merged_entry ''TAS1'' [])),
           (''AUS-VIC'', JObj (merged_entry ''VIC1'' [])),
           (''AUS-WA'', JObj (merged_entry ''WA1'' []))]"

text \<open>Two solar units of \<open>0.125\<close> and \<open>2\<^sup>-\<^sup>7\<^sup>0\<close> (the JSON number \<open>8.470329472543003e-22\<close>), and
  two units of \<open>0.001\<close> and \<open>1.004\<close>.\<close>

definition tie_duids :: "(string \<times> json) list" where
  "tie_duids =
     [(''SUN1'', JObj [(''fuel_tech'', JStr ''solar''),
                       (''registered_capacity'', JFloat (FFin (1 / 8)))]),
      (''SUN2'', JObj [(''fuel_tech'', JStr ''solar''),
                       (''registered_capacity'', JFloat (FFin (1 / 2 ^ 70)))])]"

definition small_duids :: "(string \<times> json) list" where
  "small_duids =
     [(''SUN1'', JObj [(''fuel_tech'', JStr ''solar''),
                       (''registered_capacity'', float_lit (1 / 1000))]),
      (''SUN2'', JObj [(''fuel_tech'', JStr ''solar''),
                       (''registered_capacity'', float_lit (1004 / 1000))])]"

section \<open>Properties\<close>

subsection \<open>Loops\<close>

lemma for_each_append:
  "for_each body s (xs @ ys) =
     (case for_each body s xs of Inl e \<Rightarrow> Inl e | Inr s' \<Rightarrow> for_each body s' ys)"
  by (induction xs arbitrary: s) (auto split: sum.splits)

lemma for_each_invariant:
  assumes "\<And>s x s'. P s \<Longrightarrow> body s x = Inr s' \<Longrightarrow> P s'"
    and "P s" and "for_each body s xs = Inr s'"
  shows "P s'"
  using assms(2,3)
proof (induction xs arbitrary: s)
  case Nil
  then show ?case by simp
next
  case (Cons x xs)
  then show ?case
    by (auto split: sum.splits intro: assms(1))
qed



lemma for_each_Inr_each:
  "for_each body s xs = Inr s' \<Longrightarrow> x \<in> set xs \<Longrightarrow> \<exists>s1 s2. body s1 x = Inr s2"
proof (induction xs arbitrary: s)
  case Nil
  then show ?case by simp
next
  case (Cons y ys)
  from Cons.prems(1) obtain s1 where 1: "body s y = Inr s1" and 2: "for_each body s1 ys = Inr s'"
    by (auto split: sum.splits)
  show ?case
  proof (cases "x = y")
    case True
    with 1 show ?thesis by blast
  next
    case False
    with Cons.prems(2) have "x \<in> set ys" by simp
    with Cons.IH [OF 2] show ?thesis by blast
  qed
qed

subsection \<open>Fuel types\<close>

lemma rewrite_gen_type_normalized:
  "ft \<noteq> ''battery_charging'' \<Longrightarrow> ft \<noteq> ''pumps'' \<Longrightarrow>
   normalized_fuel_type ft = Some (rewrite_gen_type ft)"
  by (auto simp: normalized_fuel_type_def rewrite_gen_type_def startswith_def Let_def)

lemma update_capacity_item_Inr:
  assumes "map_of gen_info ''fuel_tech'' = Some (JStr ft)"
    and "update_capacity_item dlib cap (gen_code, JObj gen_info) = Inr cap'"
  shows "case normalized_fuel_type ft of
           None \<Rightarrow> cap' = cap
         | Some k \<Rightarrow>
             (\<exists>rc d new. map_of gen_info ''registered_capacity'' = Some rc \<and>
                Decimal dlib rc = Inr d \<and>
                dec_add (capacity_get cap k) d = Inr new \<and>
                cap' = AList.update k new cap)"
proof (cases "ft = ''battery_charging'' \<or> ft = ''pumps''")
  case True
  with assms show ?thesis
    by (auto simp: normalized_fuel_type_def)
next
  case False
  then have n: "normalized_fuel_type ft = Some (rewrite_gen_type ft)"
    by (simp add: rewrite_gen_type_normalized)
  from False assms show ?thesis
    unfolding n
    by (auto simp: Let_def split: option.splits sum.splits)
qed

lemma capacity_get_update:
  "capacity_get (AList.update k v cap) k' = (if k' = k then v else capacity_get cap k')"
  by (simp add: capacity_get_def update_conv')

lemma update_capacity_item_contribution:
  assumes "update_capacity_item dlib cap item = Inr cap'"
  shows "for_each dec_add (capacity_get cap k) (contribution dlib k item) =
         Inr (capacity_get cap' k)"
proof -
  obtain gen_code gen_info where item: "item = (gen_code, gen_info)" by (cases item)
  from assms item obtain kvs where kvs: "gen_info = JObj kvs"
    by (cases gen_info) auto
  show ?thesis
  proof (cases "map_of kvs ''fuel_tech''")
    case None
    with assms show ?thesis by (simp add: item kvs)
  next
    case (Some gen_type)
    show ?thesis
    proof (cases gen_type)
      case (JStr ft)
      show ?thesis
      proof (cases "ft = ''battery_charging'' \<or> ft = ''pumps''")
        case True
        with assms Some JStr show ?thesis
          by (auto simp: item kvs normalized_fuel_type_def)
      next
        case False
        then have n: "normalized_fuel_type ft = Some (rewrite_gen_type ft)"
          by (simp add: rewrite_gen_type_normalized)
        from assms Some JStr False obtain rc d new where
          rc: "map_of kvs ''registered_capacity'' = Some rc"
          and d: "Decimal dlib rc = Inr d"
          and new: "dec_add (capacity_get cap (rewrite_gen_type ft)) d = Inr new"
          and cap': "cap' = AList.update (rewrite_gen_type ft) new cap"
          by (auto simp: item kvs Let_def split: option.splits sum.splits)
        show ?thesis
          by (simp add: item kvs Some JStr n rc d new cap' capacity_get_update)
      qed
    qed (use assms Some in \<open>auto simp: item kvs\<close>)
  qed
qed

text \<open>The total of \<open>k\<close> after the loop is the total before it with the contributions to
  \<open>k\<close> added one by one.\<close>

lemma update_capacity_contributions:
  "for_each (update_capacity_item dlib) cap gens = Inr cap' \<Longrightarrow>
   for_each dec_add (capacity_get cap k) (contributions dlib k gens) =
   Inr (capacity_get cap' k)"
proof (induction gens arbitrary: cap)
  case Nil
  then show ?case by (simp add: contributions_def)
next
  case (Cons item gens)
  from Cons.prems obtain cap1 where
    1: "update_capacity_item dlib cap item = Inr cap1"
    and 2: "for_each (update_capacity_item dlib) cap1 gens = Inr cap'"
    by (auto split: sum.splits)
  from update_capacity_item_contribution [OF 1] Cons.IH [OF 2]
  show ?case
    by (simp add: contributions_def for_each_append del: update_capacity_item.simps)
qed

lemma update_capacity_item_counted:
  assumes "update_capacity_item dlib cap item = Inr cap'"
  shows "case counted_under item of
           None \<Rightarrow> cap' = cap \<and> (\<forall>k. contribution dlib k item = [])
         | Some k \<Rightarrow>
             (\<exists>rc d new. subscript (snd item) ''registered_capacity'' = Inr rc \<and>
                Decimal dlib rc = Inr d \<and>
                dec_add (capacity_get cap k) d = Inr new \<and>
                cap' = AList.update k new cap \<and>
                (\<forall>k'. contribution dlib k' item = (if k' = k then [d] else [])))"
proof -
  obtain gen_code gen_info where item: "item = (gen_code, gen_info)" by (cases item)
  from assms item obtain kvs where kvs: "gen_info = JObj kvs"
    by (cases gen_info) auto
  show ?thesis
  proof (cases "map_of kvs ''fuel_tech''")
    case None
    with assms show ?thesis by (simp add: item kvs counted_under_def)
  next
    case (Some gen_type)
    show ?thesis
    proof (cases gen_type)
      case (JStr ft)
      from update_capacity_item_Inr [OF Some [unfolded JStr] assms [unfolded item kvs]]
      show ?thesis
        by (cases "normalized_fuel_type ft")
           (auto simp: item kvs counted_under_def Some JStr split: option.splits)
    qed (use assms Some in \<open>auto simp: item kvs counted_under_def\<close>)
  qed
qed

lemma update_capacity_item_keys:
  assumes "update_capacity_item dlib cap item = Inr cap'"
  shows "fst ` set cap' = fst ` set cap \<union> {k. contribution dlib k item \<noteq> []}"
proof (cases "counted_under item")
  case None
  with update_capacity_item_counted [OF assms] show ?thesis by simp
next
  case (Some k)
  with update_capacity_item_counted [OF assms] obtain d new where
    "cap' = AList.update k new cap"
    and "\<forall>k'. contribution dlib k' item = (if k' = k then [d] else [])"
    by auto
  then show ?thesis
    by (auto simp: dom_update)
qed

lemma update_capacity_keys:
  "for_each (update_capacity_item dlib) cap gens = Inr cap' \<Longrightarrow>
   fst ` set cap' = fst ` set cap \<union> {k. contributions dlib k gens \<noteq> []}"
proof (induction gens arbitrary: cap)
  case Nil
  then show ?case by (simp add: contributions_def)
next
  case (Cons item gens)
  from Cons.prems obtain cap1 where
    1: "update_capacity_item dlib cap item = Inr cap1"
    and 2: "for_each (update_capacity_item dlib) cap1 gens = Inr cap'"
    by (auto split: sum.splits)
  from update_capacity_item_keys [OF 1] Cons.IH [OF 2]
  show ?case
    by (auto simp: contributions_def)
qed

text \<open>C1. When \<open>update_capacity\<close> processes the DUIDs of a station without an
  exception, every entry is counted under its normalised fuel type and nowhere else: an
  entry the normalisation counts nowhere (\<open>battery_charging\<close>, \<open>pumps\<close>, no fuel type)
  contributes to no total, and an entry it counts under \<open>k\<close> contributes the \<open>Decimal\<close> of
  its \<open>registered_capacity\<close> to the total of \<open>k\<close> only. The total of every fuel type
  after the loop is the total before it with the contributions to that fuel type added
  one by one, and the fuel types recorded are those recorded before and those that
  received a contribution.\<close>

theorem update_capacity_counts_normalized:
  assumes "update_capacity dlib self duid_data = Inr self'"
  shows "\<exists>gens. duid_data = JObj gens \<and>
           (\<forall>item \<in> set gens.
              case counted_under item of
                None \<Rightarrow> \<forall>k. contribution dlib k item = []
              | Some k \<Rightarrow>
                  (\<exists>rc d. subscript (snd item) ''registered_capacity'' = Inr rc \<and>
                     Decimal dlib rc = Inr d \<and>
                     (\<forall>k'. contribution dlib k' item = (if k' = k then [d] else [])))) \<and>
           (\<forall>k. for_each dec_add (capacity_get (capacity self) k) (contributions dlib k gens) =
                  Inr (capacity_get (capacity self') k)) \<and>
           fst ` set (capacity self') =
             fst ` set (capacity self) \<union> {k. contributions dlib k gens \<noteq> []}"
proof -
  from assms obtain gens where g: "duid_data = JObj gens"
    and l: "for_each (update_capacity_item dlib) (capacity self) gens = Inr (capacity self')"
    by (cases duid_data) (auto simp: update_capacity_def split: sum.splits)
  have "case counted_under item of
          None \<Rightarrow> \<forall>k. contribution dlib k item = []
        | Some k \<Rightarrow>
            (\<exists>rc d. subscript (snd item) ''registered_capacity'' = Inr rc \<and>
               Decimal dlib rc = Inr d \<and>
               (\<forall>k'. contribution dlib k' item = (if k' = k then [d] else [])))"
    if "item \<in> set gens" for item
  proof -
    from for_each_Inr_each [OF l that] obtain c1 c2 where
      "update_capacity_item dlib c1 item = Inr c2" by blast
    from update_capacity_item_counted [OF this] show ?thesis
      by (cases "counted_under item") auto
  qed
  moreover have "\<forall>k. for_each dec_add (capacity_get (capacity self) k)
                       (contributions dlib k gens) = Inr (capacity_get (capacity self') k)"
    using update_capacity_contributions [OF l] by simp
  moreover note update_capacity_keys [OF l]
  ultimately show ?thesis
    using g by blast
qed

subsection \<open>Entries without a fuel type\<close>

lemma update_capacity_item_no_fuel_tech:
  "map_of gen_info ''fuel_tech'' = None \<or> map_of gen_info ''fuel_tech'' = Some JNull \<Longrightarrow>
   update_capacity_item dlib cap (gen_code, JObj gen_info) = Inr cap"
  by auto

text \<open>C8. A DUID entry whose dictionary has no \<open>fuel_tech\<close> key, or has \<open>None\<close> there, is
  skipped: the loop body returns the totals as they were, without an exception, and
  \<open>update_capacity\<close> on the whole \<open>duid_data\<close> does exactly what it does on the
  \<open>duid_data\<close> without that entry, so the entries before and after it are processed all
  the same.\<close>

theorem update_capacity_skips_missing_fuel_tech:
  assumes "map_of gen_info ''fuel_tech'' = None \<or> map_of gen_info ''fuel_tech'' = Some JNull"
  shows "update_capacity_item dlib cap (gen_code, JObj gen_info) = Inr cap \<and>
         update_capacity dlib self (JObj (before @ (gen_code, JObj gen_info) # after)) =
         update_capacity dlib self (JObj (before @ after))"
proof -
  have step: "\<And>c. update_capacity_item dlib c (gen_code, JObj gen_info) = Inr c"
    using assms by (rule update_capacity_item_no_fuel_tech)
  have "for_each (update_capacity_item dlib) (capacity self)
          (before @ (gen_code, JObj gen_info) # after) =
        for_each (update_capacity_item dlib) (capacity self) (before @ after)"
    by (simp add: for_each_append step del: update_capacity_item.simps split: sum.splits)
  then show ?thesis
    by (simp add: update_capacity_def step del: update_capacity_item.simps)
qed

theorem update_capacity_skips_missing_fuel_tech_witness:
  "(map_of [] ''fuel_tech'' = None \<or> map_of [] ''fuel_tech'' = Some JNull) \<and>
   update_capacity_item (\<lambda>v. Inl InvalidOperation) [] (''SHPUMP'', JObj []) = Inr [] \<and>
   update_capacity (\<lambda>v. Inl InvalidOperation) (OpenNEMZone_init ''TAS1'')
     (JObj ([(''SHGEN'', JObj [(''fuel_tech'', JStr ''hydro''), (''registered_capacity'', JInt 240)])] @
            (''SHPUMP'', JObj []) #
            [(''SHGEN2'', JObj [(''fuel_tech'', JStr ''hydro''), (''registered_capacity'', JInt 60)])])) =
   Inr ((OpenNEMZone_init ''TAS1'')\<lparr>capacity := [(''hydro'', DFin 300)]\<rparr>)"
proof -
  have h: "map_of [] ''fuel_tech'' = None \<or> map_of [] ''fuel_tech'' = Some JNull"
    by simp
  have e: "update_capacity (\<lambda>v. Inl InvalidOperation) (OpenNEMZone_init ''TAS1'')
     (JObj ([(''SHGEN'', JObj [(''fuel_tech'', JStr ''hydro''), (''registered_capacity'', JInt 240)])] @
            [(''SHGEN2'', JObj [(''fuel_tech'', JStr ''hydro''), (''registered_capacity'', JInt 60)])])) =
   Inr ((OpenNEMZone_init ''TAS1'')\<lparr>capacity := [(''hydro'', DFin 300)]\<rparr>)"
    by code_simp
  from update_capacity_skips_missing_fuel_tech [OF h, where dlib = "\<lambda>v. Inl InvalidOperation"
      and self = "OpenNEMZone_init ''TAS1''" and gen_code = "''SHPUMP''"
      and before = "[(''SHGEN'', JObj [(''fuel_tech'', JStr ''hydro''), (''registered_capacity'', JInt 240)])]"
      and after = "[(''SHGEN2'', JObj [(''fuel_tech'', JStr ''hydro''), (''registered_capacity'', JInt 60)])]"
      and cap = "[]"] e h
  show ?thesis
    by simp
qed

subsection \<open>The loop over the registry\<close>

lemma update_capacity_keeps:
  "update_capacity dlib z dd = Inr z' \<Longrightarrow> zone z' = zone z \<and> bounding_box z' = bounding_box z"
  by (auto simp: update_capacity_def split: sum.splits)

lemma zones_getitem_Inr:
  "zones_getitem zones v = Inr (key, z) \<Longrightarrow> v = JStr key \<and> map_of zones key = Some z"
  by (cases v) (auto split: option.splits)

lemma process_facility_Inr:
  assumes "process_facility dlib zones (facility_code, facility) = Inr zones'"
  shows "\<exists>state. status_state facility = Inr state \<and>
           (if state = JStr ''Commissioned'' then
              (\<exists>key z duid_data z'.
                 subscript facility ''region_id'' = Inr (JStr key) \<and>
                 map_of zones key = Some z \<and>
                 subscript facility ''duid_data'' = Inr duid_data \<and>
                 update_capacity dlib z duid_data = Inr z' \<and>
                 zones' = AList.update key z' zones)
            else zones' = zones)"
  using assms
  by (auto simp: process_facility_def status_state_def update_from_facility_data_def
      split: sum.splits if_splits dest!: zones_getitem_Inr)

lemma snd_main:
  "snd (main json_loads dlib env) =
     (case parsed_facilities json_loads env of
        Inl e \<Rightarrow> Inl e
      | Inr facilities \<Rightarrow>
          (case items facilities of
             Inl e \<Rightarrow> Inl e
           | Inr facs \<Rightarrow>
               (case for_each (process_facility dlib) zones_init facs of
                  Inl e \<Rightarrow> Inl e
                | Inr zones \<Rightarrow>
                    (case json_zones zones of
                       Inl e \<Rightarrow> Inl e
                     | Inr jz \<Rightarrow> Inr (dumps_sort_keys (JObj jz))))))"
  by (simp add: main_def)

lemma fst_main: "fst (main json_loads dlib env) = snd (load_facility_data json_loads env)"
  by (simp add: main_def)

lemma main_Inr:
  assumes "snd (main json_loads dlib env) = Inr out"
  shows "\<exists>facs zones jz.
           parsed_facilities json_loads env = Inr (JObj facs) \<and>
           for_each (process_facility dlib) zones_init facs = Inr zones \<and>
           json_zones zones = Inr jz \<and>
           out = dumps_sort_keys (JObj jz)"
proof -
  from assms obtain facilities facs zones jz where
    f: "parsed_facilities json_loads env = Inr facilities"
    and i: "items facilities = Inr facs"
    and l: "for_each (process_facility dlib) zones_init facs = Inr zones"
    and j: "json_zones zones = Inr jz"
    and out: "out = dumps_sort_keys (JObj jz)"
    by (auto simp: snd_main split: sum.splits)
  from i have "facilities = JObj facs" by (cases facilities) auto
  with f l j out show ?thesis by blast
qed


subsection \<open>Missing keys\<close>





subsection \<open>The zones of the output\<close>

lemma zone_map_eq:
  "zone_map = [(''NSW1'', ''AUS-NSW''), (''QLD1'', ''AUS-QLD''), (''SA1'', ''AUS-SA''),
               (''TAS1'', ''AUS-TAS''), (''VIC1'', ''AUS-VIC''), (''WA1'', ''AUS-WA'')]"
  by (simp add: zone_map_def PRICE_MAPPING_DICTIONARY_def)

lemma zones_init_eq:
  "zones_init = map (\<lambda>z. (z, OpenNEMZone_init z)) zone_codes"
  by (simp add: zones_init_def zone_map_eq zone_codes_def)

lemma sorted_output_codes: "sorted output_codes"
  by (simp add: output_codes_def)

lemma update_present_keys:
  "map_of al k = Some v \<Longrightarrow> map fst (AList.update k v' al) = map fst al"
  by (simp add: update_keys map_of_eq_None_iff [symmetric])

lemma update_present_proj:
  "map_of al k = Some v \<Longrightarrow> f v' = f v \<Longrightarrow>
   map (\<lambda>p. f (snd p)) (AList.update k v' al) = map (\<lambda>p. f (snd p)) al"
  by (induction al) (auto split: if_splits)

lemma zones_shape_init: "zones_shape zones_init"
  by (simp add: zones_shape_def zones_init_eq zone_codes_def OpenNEMZone_init_def)

lemma process_facility_shape:
  assumes "zones_shape zones" and "process_facility dlib zones item = Inr zones'"
  shows "zones_shape zones'"
proof -
  obtain facility_code facility where item: "item = (facility_code, facility)"
    by (cases item)
  from process_facility_Inr [OF assms(2) [unfolded item]]
  obtain state where s: "if state = JStr ''Commissioned'' then
              (\<exists>key z duid_data z'.
                 subscript facility ''region_id'' = Inr (JStr key) \<and>
                 map_of zones key = Some z \<and>
                 subscript facility ''duid_data'' = Inr duid_data \<and>
                 update_capacity dlib z duid_data = Inr z' \<and>
                 zones' = AList.update key z' zones)
            else zones' = zones"
    by blast
  show ?thesis
  proof (cases "state = JStr ''Commissioned''")
    case False
    with s assms(1) show ?thesis by simp
  next
    case True
    with s obtain key z duid_data z' where m: "map_of zones key = Some z"
      and u: "update_capacity dlib z duid_data = Inr z'"
      and z: "zones' = AList.update key z' zones"
      by auto
    from u have "zone z' = zone z" by (simp add: update_capacity_keeps)
    with m z assms(1) show ?thesis
      by (simp add: zones_shape_def update_present_keys update_present_proj)
  qed
qed

lemma for_each_process_shape:
  "for_each (process_facility dlib) zones_init facs = Inr zones \<Longrightarrow> zones_shape zones"
  by (rule for_each_invariant [where P = zones_shape and body = "process_facility dlib"])
     (auto intro: process_facility_shape zones_shape_init)

lemma zones_shape_lookup:
  "zones_shape zones \<Longrightarrow> s \<notin> set zone_codes \<Longrightarrow> map_of zones s = None"
proof -
  assume a: "zones_shape zones" and n: "s \<notin> set zone_codes"
  from a have "fst ` set zones = set zone_codes"
    unfolding zones_shape_def by (metis set_map)
  with n show ?thesis
    by (simp add: map_of_eq_None_iff)
qed

lemma json_zones_keys:
  assumes "zones_shape zones" and "json_zones zones = Inr jz"
  shows "map fst jz = output_codes"
proof -
  from assms(1) obtain z1 z2 z3 z4 z5 z6 where
    zs: "map snd zones = [z1, z2, z3, z4, z5, z6]"
    and z: "zone z1 = ''NSW1''" "zone z2 = ''QLD1''" "zone z3 = ''SA1''"
           "zone z4 = ''TAS1''" "zone z5 = ''VIC1''" "zone z6 = ''WA1''"
    by (auto simp: zones_shape_def zone_codes_def)
  from assms(2) show ?thesis
    unfolding json_zones_def zs
    by (auto simp: z zone_map_eq output_codes_def split: sum.splits)
qed





subsection \<open>The dictionary returned by \<open>output\<close>\<close>

lemma boilerplate_merge:
  "fold (\<lambda>(k, v) d. AList.update k v d) ZONE_BOILERPLATE
     [(''bounding_box'', box), (''capacity'', cap)] =
   (''bounding_box'', box) # (''capacity'', cap) # ZONE_BOILERPLATE"
  by (simp add: ZONE_BOILERPLATE_def)

text \<open>C10. The dictionary returned by \<open>output\<close> has exactly the keys \<open>bounding_box\<close>,
  \<open>capacity\<close>, \<open>contributors\<close>, \<open>flag_file_name\<close>, \<open>parsers\<close>, \<open>timezone\<close>; after the
  boilerplate is merged in, \<open>bounding_box\<close> is still the entry of \<open>STATE_BOUNDING_BOXES\<close>
  and \<open>capacity\<close> is still the dictionary of rounded totals that were placed there; and
  \<open>timezone\<close> is \<open>None\<close>.\<close>

theorem output_dict_six_keys:
  assumes "output_dict self = Inr out"
  shows "map fst out = [''bounding_box'', ''capacity'', ''contributors'', ''flag_file_name'',
                        ''parsers'', ''timezone''] \<and>
         map_of out ''bounding_box'' = map_of STATE_BOUNDING_BOXES (zone self) \<and>
         (\<exists>cap. rounded_capacity (capacity self) = Inr cap \<and>
                map_of out ''capacity'' = Some (JObj cap)) \<and>
         map_of out ''timezone'' = Some JNull"
proof -
  from assms obtain box cap where
    b: "map_of STATE_BOUNDING_BOXES (zone self) = Some box"
    and c: "rounded_capacity (capacity self) = Inr cap"
    and out: "out = (''bounding_box'', box) # (''capacity'', JObj cap) # ZONE_BOILERPLATE"
    by (auto simp: output_dict_def boilerplate_merge split: option.splits sum.splits)
  show ?thesis
    unfolding out by (simp add: b c ZONE_BOILERPLATE_def)
qed

subsection \<open>Cache and HTTP\<close>

lemma fresh_valid_not_to_refresh:
  "fresh_valid_cache json_loads env \<Longrightarrow> \<not> cache_to_refresh json_loads env"
  by (auto simp: fresh_valid_cache_def cache_to_refresh_def split: sum.splits)

lemma load_facility_data_fresh:
  assumes "isl (json_loads [])" and "fresh_valid_cache json_loads env"
  shows "load_facility_data json_loads env = (file_text env, [ReadFile CACHE_FILE])"
proof -
  from assms(2) obtain then_time cached facilities where
    "file_exists env" and "file_then env = Inr then_time"
    and "clock_now env - then_time < seven_days"
    and "file_text env = Inr cached" and j: "json_loads cached = Inr facilities"
    by (auto simp: fresh_valid_cache_def split: sum.splits)
  moreover from assms(1) j have "cached \<noteq> []" by auto
  ultimately show ?thesis
    by (simp add: load_facility_data_def load_from_cache_def)
qed

lemma load_facility_data_refresh:
  assumes "cache_to_refresh json_loads env"
  shows "\<exists>evs. (evs = [] \<or> evs = [ReadFile CACHE_FILE]) \<and>
           load_facility_data json_loads env =
             (case response_text env of
                Inl e \<Rightarrow> (Inl e, evs @ [HttpGet REGISTRY_URL])
              | Inr text \<Rightarrow>
                  (case write_error env of Some e \<Rightarrow> Inl e | None \<Rightarrow> Inr text,
                   evs @ [HttpGet REGISTRY_URL, WriteFile CACHE_FILE text]))"
proof -
  from assms have "load_from_cache json_loads env = (Inr None, []) \<or>
                   load_from_cache json_loads env = (Inr None, [ReadFile CACHE_FILE])"
    by (auto simp: cache_to_refresh_def load_from_cache_def split: sum.splits if_splits)
  then show ?thesis
    by (auto simp: load_facility_data_def refresh_def split: sum.splits option.splits)
qed

lemma load_facility_data_failure:
  assumes "\<not> fresh_valid_cache json_loads env" and "\<not> cache_to_refresh json_loads env"
  shows "\<exists>e evs. (evs = [] \<or> evs = [ReadFile CACHE_FILE]) \<and>
           cache_failure json_loads env = Some e \<and>
           load_facility_data json_loads env = (Inl e, evs)"
  using assms
  by (auto simp: fresh_valid_cache_def cache_to_refresh_def cache_failure_def
      load_facility_data_def load_from_cache_def split: sum.splits if_splits)

text \<open>C5, as amended. With a \<open>json.loads\<close> that raises on the empty text: the run issues
  the GET of the registry URL if and only if the cache is to refresh, that is the cache
  file is absent, or is seven days old or more, or is fresh and is rejected by
  \<open>json.loads\<close> with \<open>JSONDecodeError\<close>. With a fresh valid cache the text of the cache
  file is the data used and the only event is the read of that file. With a cache to
  refresh the events end with the GET; if the GET raises, its exception ends the loading,
  and otherwise the text of the response is written to the cache file and is the data
  used, unless the write raises. In every other case (the modification time or the read
  of the fresh file raises, or \<open>json.loads\<close> raises another exception than
  \<open>JSONDecodeError\<close> on the contents) that exception ends the run, and there is no
  GET.\<close>

theorem http_get_iff_cache_to_refresh:
  assumes "isl (json_loads [])"
  shows "(HttpGet REGISTRY_URL \<in> set (fst (main json_loads dlib env)) \<longleftrightarrow>
            cache_to_refresh json_loads env) \<and>
         (if fresh_valid_cache json_loads env then
            load_facility_data json_loads env = (file_text env, [ReadFile CACHE_FILE])
          else if cache_to_refresh json_loads env then
            (\<exists>evs. (evs = [] \<or> evs = [ReadFile CACHE_FILE]) \<and>
               load_facility_data json_loads env =
                 (case response_text env of
                    Inl e \<Rightarrow> (Inl e, evs @ [HttpGet REGISTRY_URL])
                  | Inr text \<Rightarrow>
                      (case write_error env of Some e \<Rightarrow> Inl e | None \<Rightarrow> Inr text,
                       evs @ [HttpGet REGISTRY_URL, WriteFile CACHE_FILE text])))
          else
            (\<exists>e evs. (evs = [] \<or> evs = [ReadFile CACHE_FILE]) \<and>
               cache_failure json_loads env = Some e \<and>
               main json_loads dlib env = (evs, Inl e)))"
proof (cases "fresh_valid_cache json_loads env")
  case True
  from load_facility_data_fresh [OF assms True] True fresh_valid_not_to_refresh [OF True]
  show ?thesis
    by (simp add: fst_main)
next
  case False
  show ?thesis
  proof (cases "cache_to_refresh json_loads env")
    case True
    from load_facility_data_refresh [OF True] obtain evs where
      e: "evs = [] \<or> evs = [ReadFile CACHE_FILE]"
      and l: "load_facility_data json_loads env =
             (case response_text env of
                Inl e \<Rightarrow> (Inl e, evs @ [HttpGet REGISTRY_URL])
              | Inr text \<Rightarrow>
                  (case write_error env of Some e \<Rightarrow> Inl e | None \<Rightarrow> Inr text,
                   evs @ [HttpGet REGISTRY_URL, WriteFile CACHE_FILE text]))"
      by blast
    from l have "HttpGet REGISTRY_URL \<in> set (fst (main json_loads dlib env))"
      by (simp add: fst_main split: sum.splits)
    with e l True False show ?thesis
      by auto
  next
    case r: False
    from load_facility_data_failure [OF False r] obtain e evs where
      e: "evs = [] \<or> evs = [ReadFile CACHE_FILE]"
      and c: "cache_failure json_loads env = Some e"
      and l: "load_facility_data json_loads env = (Inl e, evs)"
      by blast
    from l have m: "main json_loads dlib env = (evs, Inl e)"
      by (simp add: main_def parsed_facilities_def)
    with e have "HttpGet REGISTRY_URL \<notin> set (fst (main json_loads dlib env))"
      by auto
    with e c m False r show ?thesis
      by auto
  qed
qed

text \<open>C6. The network requests among the events of a run are none, or the one GET of
  the registry URL.\<close>

theorem at_most_one_http_request:
  "filter is_http_request (fst (main json_loads dlib env)) = [] \<or>
   filter is_http_request (fst (main json_loads dlib env)) = [HttpGet REGISTRY_URL]"
  by (auto simp: fst_main load_facility_data_def load_from_cache_def refresh_def
      split: option.splits sum.splits)

subsection \<open>The sample run\<close>

lemma example_loop:
  "for_each (process_facility reject_decimal) zones_init example_facilities = Inr example_zones"
  by code_simp

lemma round_float_2_240: "round_float_2 (DFin 240) = Inr (JFloat (FFin 240))"
  by code_simp

lemma round_float_2_100: "round_float_2 (DFin 100) = Inr (JFloat (FFin 100))"
  by code_simp

lemma example_zones_eq:
  "example_zones =
     [(''NSW1'', (OpenNEMZone_init ''NSW1'')\<lparr>capacity := [(''hydro'', DFin 240)]\<rparr>),
      (''QLD1'', OpenNEMZone_init ''QLD1''),
      (''SA1'', (OpenNEMZone_init ''SA1'')\<lparr>capacity := [(''battery storage'', DFin 100)]\<rparr>),
      (''TAS1'', OpenNEMZone_init ''TAS1''),
      (''VIC1'', OpenNEMZone_init ''VIC1''),
      (''WA1'', OpenNEMZone_init ''WA1'')]"
  by (simp add: example_zones_def shoalhaven_zones_def zones_init_eq zone_codes_def)

lemma rounded_capacity_Nil: "rounded_capacity [] = Inr []"
  by (simp add: rounded_capacity_def)

lemma rounded_capacity_hydro:
  "rounded_capacity [(''hydro'', DFin 240)] = Inr [(''hydro'', JFloat (FFin 240))]"
  by (simp add: rounded_capacity_def round_float_2_240)

lemma rounded_capacity_battery:
  "rounded_capacity [(''battery storage'', DFin 100)] =
   Inr [(''battery storage'', JFloat (FFin 100))]"
  by (simp add: rounded_capacity_def round_float_2_100)

lemma example_json_zones:
  "json_zones example_zones =
     Inr [(''AUS-NSW'', JObj (merged_entry ''NSW1'' [(''hydro'', JFloat (FFin 240))])),
          (''AUS-QLD'', JObj (merged_entry ''QLD1'' [])),
          (''AUS-SA'', JObj (merged_entry ''SA1'' [(''battery storage'', JFloat (FFin 100))])),
          (''AUS-TAS'', JObj (merged_entry ''TAS1'' [])),
          (''AUS-VIC'', JObj (merged_entry ''VIC1'' [])),
          (''AUS-WA'', JObj (merged_entry ''WA1'' []))]"
proof -
  have o: "\<And>c cap jcap. c \<in> set zone_codes \<Longrightarrow> rounded_capacity cap = Inr jcap \<Longrightarrow>
             output_dict ((OpenNEMZone_init c)\<lparr>capacity := cap\<rparr>) = Inr (merged_entry c jcap)"
    by (auto simp: output_dict_def merged_entry_def boilerplate_merge OpenNEMZone_init_def
        zone_codes_def STATE_BOUNDING_BOXES_def)
  have o0: "\<And>c. c \<in> set zone_codes \<Longrightarrow> output_dict (OpenNEMZone_init c) = Inr (merged_entry c [])"
    using o [OF _ rounded_capacity_Nil] by (simp add: OpenNEMZone_init_def)
  have z: "\<And>c cap. zone ((OpenNEMZone_init c)\<lparr>capacity := cap\<rparr>) = c"
    by (simp add: OpenNEMZone_init_def)
  have z0: "\<And>c. zone (OpenNEMZone_init c) = c"
    by (simp add: OpenNEMZone_init_def)
  show ?thesis
    unfolding json_zones_def example_zones_eq
    by (simp add: z z0 zone_map_eq o o0 zone_codes_def rounded_capacity_hydro
        rounded_capacity_battery)
qed

lemma keys_sorted_dumps: "keys_sorted (dumps_sort_keys j)"
proof (induction j rule: dumps_sort_keys.induct)
  case (1 kvs)
  have "list_all (\<lambda>(k, v). keys_sorted v) (sort_key fst (map (map_prod id dumps_sort_keys) kvs))"
    using 1 by (auto simp: list_all_iff)
  moreover have "sorted (map fst (sort_key fst (map (map_prod id dumps_sort_keys) kvs)))"
    by (rule sorted_sort_key)
  ultimately show ?case by simp
next
  case (2 xs)
  then show ?case by (auto simp: list_all_iff)
qed simp_all

lemma dumps_sorted_id: "keys_sorted j \<Longrightarrow> dumps_sort_keys j = j"
proof (induction j rule: dumps_sort_keys.induct)
  case (1 kvs)
  then have s: "sorted (map fst kvs)" and e: "\<And>k v. (k, v) \<in> set kvs \<Longrightarrow> keys_sorted v"
    by (auto simp: list_all_iff)
  have m: "map (map_prod id dumps_sort_keys) kvs = kvs"
  proof (rule map_idI)
    fix p assume p: "p \<in> set kvs"
    obtain k v where kv: "p = (k, v)" by (cases p)
    with p have "keys_sorted v" by (auto intro: e)
    with 1(1) p kv have "dumps_sort_keys v = v" by auto
    with kv show "map_prod id dumps_sort_keys p = p" by simp
  qed
  from s show ?case
    by (simp add: m sort_key_id_if_sorted)
next
  case (2 xs)
  then show ?case by (auto simp: list_all_iff map_idI)
qed simp_all

lemma keys_sorted_float_lit: "keys_sorted (float_lit q)"
  by (simp add: float_lit_def)

lemma keys_sorted_example_output: "keys_sorted example_output"
  by (simp add: example_output_def merged_entry_def ZONE_BOILERPLATE_def
      STATE_BOUNDING_BOXES_def keys_sorted_float_lit)

lemma example_load:
  "load_facility_data example_json_loads (cached_env ''registry'') =
     (Inr ''registry'', [ReadFile CACHE_FILE])"
  by (simp add: load_facility_data_def load_from_cache_def cached_env_def
      example_json_loads_def seven_days_def)

lemma example_parsed:
  "parsed_facilities example_json_loads (cached_env ''registry'') =
     Inr (JObj example_facilities)"
  by (simp add: parsed_facilities_def example_load) (simp add: example_json_loads_def)

lemma example_run:
  "main example_json_loads reject_decimal (cached_env ''registry'') =
     ([ReadFile CACHE_FILE], Inr example_output)"
proof -
  have d: "dumps_sort_keys example_output = example_output"
    by (rule dumps_sorted_id) (rule keys_sorted_example_output)
  have "snd (main example_json_loads reject_decimal (cached_env ''registry'')) =
          Inr example_output"
    by (simp only: snd_main example_parsed items.simps sum.case example_loop
        example_json_zones d [unfolded example_output_def] example_output_def)
  moreover have "fst (main example_json_loads reject_decimal (cached_env ''registry'')) =
                 [ReadFile CACHE_FILE]"
    by (simp only: fst_main example_load snd_conv)
  ultimately show ?thesis
    by (simp add: prod_eq_iff)
qed

subsection \<open>The printed entries\<close>

lemma output_dict_Inr:
  assumes "output_dict z = Inr out"
  shows "\<exists>cap. rounded_capacity (capacity z) = Inr cap \<and> out = merged_entry (zone z) cap"
  using assms
  by (auto simp: output_dict_def merged_entry_def boilerplate_merge
      split: option.splits sum.splits)

lemma json_zones_entries:
  assumes "zones_shape zones" and "json_zones zones = Inr jz"
  shows "list_all2
           (\<lambda>zone_item member.
              case zone_item of (code, z) \<Rightarrow>
                (case member of (key, entry) \<Rightarrow>
                   map_of zone_map code = Some key \<and>
                   map_of PRICE_MAPPING_DICTIONARY key = Some code \<and>
                   (case rounded_capacity (capacity z) of
                      Inl e \<Rightarrow> False
                    | Inr cap \<Rightarrow> entry = JObj (merged_entry code cap))))
           zones jz"
proof -
  from assms(1) obtain z1 z2 z3 z4 z5 z6 where
    zs: "zones = [(''NSW1'', z1), (''QLD1'', z2), (''SA1'', z3), (''TAS1'', z4),
                  (''VIC1'', z5), (''WA1'', z6)]"
    and z: "zone z1 = ''NSW1''" "zone z2 = ''QLD1''" "zone z3 = ''SA1''"
           "zone z4 = ''TAS1''" "zone z5 = ''VIC1''" "zone z6 = ''WA1''"
    by (auto simp: zones_shape_def zone_codes_def)
  from assms(2) obtain o1 o2 o3 o4 o5 o6 where
    o: "output_dict z1 = Inr o1" "output_dict z2 = Inr o2" "output_dict z3 = Inr o3"
       "output_dict z4 = Inr o4" "output_dict z5 = Inr o5" "output_dict z6 = Inr o6"
    and jz: "jz = [(''AUS-NSW'', JObj o1), (''AUS-QLD'', JObj o2), (''AUS-SA'', JObj o3),
                   (''AUS-TAS'', JObj o4), (''AUS-VIC'', JObj o5), (''AUS-WA'', JObj o6)]"
    unfolding json_zones_def zs
    by (auto simp: z zone_map_eq split: sum.splits)
  from o [THEN output_dict_Inr] show ?thesis
    unfolding zs jz
    by (auto simp: z zone_map_eq PRICE_MAPPING_DICTIONARY_def)
qed

text \<open>C4, as amended. What the run prints has the keys of every dictionary in ascending
  order, and its members are, zone by zone, keyed by the zone's code under the inverse
  mapping and equal to the merge of the zone's bounding box from the static table
  \<open>STATE_BOUNDING_BOXES\<close>, the zone's rounded capacity totals and the boilerplate.\<close>

theorem printed_entries:
  assumes "snd (main json_loads dlib env) = Inr out"
  shows "keys_sorted out \<and>
         (\<exists>facs zones members.
            parsed_facilities json_loads env = Inr (JObj facs) \<and>
            for_each (process_facility dlib) zones_init facs = Inr zones \<and>
            out = JObj members \<and>
            list_all2 printed_as zones members)"
proof -
  from main_Inr [OF assms] obtain facs zones jz where
    f: "parsed_facilities json_loads env = Inr (JObj facs)"
    and l: "for_each (process_facility dlib) zones_init facs = Inr zones"
    and j: "json_zones zones = Inr jz"
    and out: "out = dumps_sort_keys (JObj jz)"
    by blast
  from l have sh: "zones_shape zones" by (rule for_each_process_shape)
  from sh j have k: "map fst jz = output_codes" by (rule json_zones_keys)
  have "sorted (map fst (map (map_prod id dumps_sort_keys) jz))"
    by (simp add: k sorted_output_codes comp_def)
  then have "sort_key fst (map (map_prod id dumps_sort_keys) jz) =
             map (map_prod id dumps_sort_keys) jz"
    by (rule sort_key_id_if_sorted)
  with out have out': "out = JObj (map (map_prod id dumps_sort_keys) jz)" by simp
  have "list_all2 printed_as zones (map (map_prod id dumps_sort_keys) jz)"
    using json_zones_entries [OF sh j]
    unfolding list_all2_map2
    by (rule list_all2_mono) (auto simp: printed_as_def split: sum.splits)
  with f l out' have "\<exists>facs zones members.
            parsed_facilities json_loads env = Inr (JObj facs) \<and>
            for_each (process_facility dlib) zones_init facs = Inr zones \<and>
            out = JObj members \<and>
            list_all2 printed_as zones members"
    by blast
  moreover have "keys_sorted out"
    unfolding out by (rule keys_sorted_dumps)
  ultimately show ?thesis by simp
qed

subsection \<open>Sums and rounding\<close>

lemma exact_steps_sum:
  "exact_steps t qs \<Longrightarrow> for_each dec_add (DFin t) (map DFin qs) = Inr (DFin (t + sum_list qs))"
  by (induction qs arbitrary: t) (auto simp: add.assoc)

lemma update_capacity_item_distinct:
  "distinct (map fst cap) \<Longrightarrow> update_capacity_item dlib cap item = Inr cap' \<Longrightarrow>
   distinct (map fst cap')"
proof -
  assume d: "distinct (map fst cap)" and u: "update_capacity_item dlib cap item = Inr cap'"
  obtain gen_code gen_info where item: "item = (gen_code, gen_info)" by (cases item)
  from u item obtain kvs where kvs: "gen_info = JObj kvs"
    by (cases gen_info) auto
  from u have "cap' = cap \<or> (\<exists>k v. cap' = AList.update k v cap)"
    by (auto simp: item kvs Let_def split: option.splits sum.splits json.splits if_splits)
  with d show ?thesis
    by (auto simp: distinct_update)
qed

lemma rounded_capacity_other:
  "for_each (\<lambda>d (k, v). case round_float_2 v of Inl e \<Rightarrow> Inl e
                         | Inr r \<Rightarrow> Inr (AList.update k r d)) d cap = Inr jc \<Longrightarrow>
   k \<notin> fst ` set cap \<Longrightarrow> map_of jc k = map_of d k"
proof (induction cap arbitrary: d)
  case Nil
  then show ?case by simp
next
  case (Cons p cap)
  obtain k0 v0 where p: "p = (k0, v0)" by (cases p)
  from Cons.prems(1) obtain r0 where
    r: "round_float_2 v0 = Inr r0"
    and rest: "for_each (\<lambda>d (k, v). case round_float_2 v of Inl e \<Rightarrow> Inl e
                         | Inr r \<Rightarrow> Inr (AList.update k r d)) (AList.update k0 r0 d) cap = Inr jc"
    by (auto simp: p split: sum.splits)
  from Cons.prems(2) have "k \<notin> fst ` set cap" and "k \<noteq> k0" by (auto simp: p)
  with Cons.IH [OF rest] show ?case by (simp add: update_conv')
qed

lemma rounded_capacity_this:
  "for_each (\<lambda>d (k, v). case round_float_2 v of Inl e \<Rightarrow> Inl e
                         | Inr r \<Rightarrow> Inr (AList.update k r d)) d cap = Inr jc \<Longrightarrow>
   distinct (map fst cap) \<Longrightarrow> map_of cap k = Some v \<Longrightarrow>
   round_float_2 v = Inr (the (map_of jc k)) \<and> map_of jc k \<noteq> None"
proof (induction cap arbitrary: d)
  case Nil
  then show ?case by simp
next
  case (Cons p cap)
  obtain k0 v0 where p: "p = (k0, v0)" by (cases p)
  from Cons.prems(1) obtain r0 where
    r: "round_float_2 v0 = Inr r0"
    and rest: "for_each (\<lambda>d (k, v). case round_float_2 v of Inl e \<Rightarrow> Inl e
                         | Inr r \<Rightarrow> Inr (AList.update k r d)) (AList.update k0 r0 d) cap = Inr jc"
    by (auto simp: p split: sum.splits)
  show ?case
  proof (cases "k = k0")
    case True
    with Cons.prems(2) have "k \<notin> fst ` set cap" by (auto simp: p)
    from rounded_capacity_other [OF rest this] True Cons.prems(3) r
    show ?thesis by (simp add: p update_conv')
  next
    case False
    with Cons.prems(2,3) have "distinct (map fst cap)" and "map_of cap k = Some v"
      by (auto simp: p)
    with Cons.IH [OF rest] show ?thesis by simp
  qed
qed

lemma rounded_capacity_lookup:
  assumes "rounded_capacity cap = Inr jc" and "distinct (map fst cap)"
    and "map_of cap k = Some v"
  shows "\<exists>r. round_float_2 v = Inr r \<and> map_of jc k = Some r"
  using rounded_capacity_this [OF assms(1) [unfolded rounded_capacity_def] assms(2,3)]
  by auto

lemma round_float_2_exact:
  assumes "b64 t = FFin t" and "round_float_2 (DFin t) = Inr r"
  shows "r = JFloat (b64 (two_places t))"
  using assms
  by (auto simp: round_float_2_def two_places_def split: sum.splits pyfloat.splits)

subsection \<open>Commissioned facilities only\<close>

lemma update_capacity_Inr:
  assumes "update_capacity dlib z duid_data = Inr z'"
  shows "\<exists>gens. duid_data = JObj gens \<and>
           for_each (update_capacity_item dlib) (capacity z) gens = Inr (capacity z')"
  using assms
  by (cases duid_data) (auto simp: update_capacity_def split: sum.splits)

lemma update_capacity_distinct:
  assumes "for_each (update_capacity_item dlib) cap gens = Inr cap'"
    and "distinct (map fst cap)"
  shows "distinct (map fst cap')"
  by (rule for_each_invariant [where P = "\<lambda>c. distinct (map fst c)"
        and body = "update_capacity_item dlib", OF _ assms(2,1)])
     (rule update_capacity_item_distinct)

lemma process_facility_total:
  assumes "process_facility dlib zs item = Inr zs1" and "map_of zs code = Some z"
  shows "\<exists>z1. map_of zs1 code = Some z1 \<and>
           (\<forall>k. for_each dec_add (capacity_get (capacity z) k)
                   (facility_contributions dlib code k item) =
                 Inr (capacity_get (capacity z1) k)) \<and>
           fst ` set (capacity z1) =
             fst ` set (capacity z) \<union> {k. facility_contributions dlib code k item \<noteq> []} \<and>
           (distinct (map fst (capacity z)) \<longrightarrow> distinct (map fst (capacity z1)))"
proof -
  obtain c f where item: "item = (c, f)" by (cases item)
  from process_facility_Inr [OF assms(1) [unfolded item]]
  obtain state where st: "status_state f = Inr state"
    and s: "if state = JStr ''Commissioned'' then
              (\<exists>key z duid_data z'.
                 subscript f ''region_id'' = Inr (JStr key) \<and>
                 map_of zs key = Some z \<and>
                 subscript f ''duid_data'' = Inr duid_data \<and>
                 update_capacity dlib z duid_data = Inr z' \<and>
                 zs1 = AList.update key z' zs)
            else zs1 = zs"
    by blast
  show ?thesis
  proof (cases "state = JStr ''Commissioned''")
    case False
    with s have "zs1 = zs" by simp
    moreover from False st have "\<not> commissioned item"
      by (simp add: commissioned_def item)
    ultimately show ?thesis
      using assms(2) by (simp add: facility_contributions_def)
  next
    case True
    with s obtain key z0 duid_data z0' where
      r: "subscript f ''region_id'' = Inr (JStr key)"
      and m: "map_of zs key = Some z0"
      and dd: "subscript f ''duid_data'' = Inr duid_data"
      and u: "update_capacity dlib z0 duid_data = Inr z0'"
      and z: "zs1 = AList.update key z0' zs"
      by auto
    from update_capacity_Inr [OF u] obtain gens where g: "duid_data = JObj gens"
      and l: "for_each (update_capacity_item dlib) (capacity z0) gens = Inr (capacity z0')"
      by blast
    from True st have c: "commissioned item"
      by (simp add: commissioned_def item)
    show ?thesis
    proof (cases "key = code")
      case same: True
      with m assms(2) have z0: "z0 = z" by simp
      have fc: "facility_contributions dlib code k item = contributions dlib k gens" for k
        using c by (simp add: facility_contributions_def item r dd g same)
      have "map_of zs1 code = Some z0'"
        by (simp add: z same update_conv')
      moreover have "\<forall>k. for_each dec_add (capacity_get (capacity z) k)
                   (facility_contributions dlib code k item) =
                 Inr (capacity_get (capacity z0') k)"
        using update_capacity_contributions [OF l] by (simp add: fc z0)
      moreover have "fst ` set (capacity z0') =
             fst ` set (capacity z) \<union> {k. facility_contributions dlib code k item \<noteq> []}"
        using update_capacity_keys [OF l] by (simp add: fc z0)
      moreover have "distinct (map fst (capacity z)) \<longrightarrow> distinct (map fst (capacity z0'))"
        using update_capacity_distinct [OF l] by (simp add: z0)
      ultimately show ?thesis by blast
    next
      case other: False
      then have "facility_contributions dlib code k item = []" for k
        by (simp add: facility_contributions_def item r)
      with other assms(2) show ?thesis
        by (simp add: z update_conv')
    qed
  qed
qed

lemma for_each_process_total:
  "for_each (process_facility dlib) zs facs = Inr zs' \<Longrightarrow> map_of zs code = Some z \<Longrightarrow>
   \<exists>z'. map_of zs' code = Some z' \<and>
     (\<forall>k. for_each dec_add (capacity_get (capacity z) k) (zone_contributions dlib code k facs) =
           Inr (capacity_get (capacity z') k)) \<and>
     fst ` set (capacity z') =
       fst ` set (capacity z) \<union> {k. zone_contributions dlib code k facs \<noteq> []} \<and>
     (distinct (map fst (capacity z)) \<longrightarrow> distinct (map fst (capacity z')))"
proof (induction facs arbitrary: zs z)
  case Nil
  then show ?case by (simp add: zone_contributions_def)
next
  case (Cons item facs)
  from Cons.prems(1) obtain zs1 where
    1: "process_facility dlib zs item = Inr zs1"
    and 2: "for_each (process_facility dlib) zs1 facs = Inr zs'"
    by (auto split: sum.splits)
  from process_facility_total [OF 1 Cons.prems(2)] obtain z1 where
    m1: "map_of zs1 code = Some z1"
    and t1: "\<And>k. for_each dec_add (capacity_get (capacity z) k)
                   (facility_contributions dlib code k item) =
                 Inr (capacity_get (capacity z1) k)"
    and k1: "fst ` set (capacity z1) =
             fst ` set (capacity z) \<union> {k. facility_contributions dlib code k item \<noteq> []}"
    and d1: "distinct (map fst (capacity z)) \<longrightarrow> distinct (map fst (capacity z1))"
    by blast
  from Cons.IH [OF 2 m1] obtain z' where
    m: "map_of zs' code = Some z'"
    and t: "\<And>k. for_each dec_add (capacity_get (capacity z1) k)
                   (zone_contributions dlib code k facs) =
                 Inr (capacity_get (capacity z') k)"
    and k: "fst ` set (capacity z') =
             fst ` set (capacity z1) \<union> {k. zone_contributions dlib code k facs \<noteq> []}"
    and d: "distinct (map fst (capacity z1)) \<longrightarrow> distinct (map fst (capacity z'))"
    by blast
  have "\<forall>k. for_each dec_add (capacity_get (capacity z) k)
              (zone_contributions dlib code k (item # facs)) =
            Inr (capacity_get (capacity z') k)"
    by (simp add: zone_contributions_def for_each_append t1 t [unfolded zone_contributions_def])
  moreover have "fst ` set (capacity z') =
       fst ` set (capacity z) \<union> {k. zone_contributions dlib code k (item # facs) \<noteq> []}"
    unfolding k k1 by (auto simp: zone_contributions_def)
  ultimately show ?case
    using m d1 d by blast
qed

lemma zones_shape_init_lookup:
  assumes "zones_shape zones" and "map_of zones code = Some z"
  shows "map_of zones_init code = Some (OpenNEMZone_init code)"
proof -
  have "code \<in> set zone_codes"
  proof (rule ccontr)
    assume "code \<notin> set zone_codes"
    with assms(1) have "map_of zones code = None" by (rule zones_shape_lookup)
    with assms(2) show False by simp
  qed
  then show ?thesis
    by (auto simp: zones_init_eq zone_codes_def)
qed

text \<open>After the loop over the registry, the total of a fuel type in a zone is the chain
  of \<open>Decimal\<close> additions, from zero, of the contributions of the commissioned
  facilities of that zone.\<close>

lemma run_totals:
  assumes "for_each (process_facility dlib) zones_init facs = Inr zones"
    and "map_of zones code = Some z"
  shows "(\<forall>k. for_each dec_add (DFin 0) (zone_contributions dlib code k facs) =
              Inr (capacity_get (capacity z) k)) \<and>
         fst ` set (capacity z) = {k. zone_contributions dlib code k facs \<noteq> []} \<and>
         distinct (map fst (capacity z))"
proof -
  from assms(1) have sh: "zones_shape zones" by (rule for_each_process_shape)
  from zones_shape_init_lookup [OF sh assms(2)]
  have i: "map_of zones_init code = Some (OpenNEMZone_init code)" .
  from for_each_process_total [OF assms(1) i] assms(2)
  show ?thesis
    by (auto simp: OpenNEMZone_init_def capacity_get_def)
qed

lemma for_each_process_filter:
  "for_each (process_facility dlib) zs facs = Inr zs' \<Longrightarrow>
   for_each (process_facility dlib) zs (filter commissioned facs) = Inr zs'"
proof (induction facs arbitrary: zs)
  case Nil
  then show ?case by simp
next
  case (Cons item facs)
  from Cons.prems obtain zs1 where
    1: "process_facility dlib zs item = Inr zs1"
    and 2: "for_each (process_facility dlib) zs1 facs = Inr zs'"
    by (auto split: sum.splits)
  show ?case
  proof (cases "commissioned item")
    case True
    with 1 Cons.IH [OF 2] show ?thesis by simp
  next
    case False
    obtain c f where item: "item = (c, f)" by (cases item)
    from process_facility_Inr [OF 1 [unfolded item]] False
    have "zs1 = zs"
      by (auto simp: commissioned_def item split: if_splits)
    with False Cons.IH [OF 2] show ?thesis by simp
  qed
qed

lemma for_each_process_states:
  assumes "for_each (process_facility dlib) zs facs = Inr zs'" and "item \<in> set facs"
  shows "\<exists>state. status_state (snd item) = Inr state"
proof -
  from for_each_Inr_each [OF assms] obtain s1 s2 where
    p: "process_facility dlib s1 item = Inr s2" by blast
  obtain c f where item: "item = (c, f)" by (cases item)
  from process_facility_Inr [OF p [unfolded item]] show ?thesis
    by (auto simp: item)
qed

text \<open>C2. When the run prints, what it prints is computed from the zones the loop over
  the registry leaves, and: every facility has a status state; the loop over the
  commissioned facilities alone leaves the same zones, so a facility with any other
  status state contributes nothing to any zone; and in every zone the total of every
  fuel type is the chain of \<open>Decimal\<close> additions, from zero, of the registered capacities
  of the DUIDs of the commissioned facilities whose \<open>region_id\<close> is that zone, the fuel
  types recorded being those that such a DUID contributes to.\<close>

theorem commissioned_facilities_only:
  assumes "snd (main json_loads dlib env) = Inr out"
    and "parsed_facilities json_loads env = Inr (JObj facs)"
  shows "\<exists>zones jz.
           for_each (process_facility dlib) zones_init facs = Inr zones \<and>
           json_zones zones = Inr jz \<and>
           out = dumps_sort_keys (JObj jz) \<and>
           map fst zones = zone_codes \<and>
           (\<forall>item \<in> set facs. \<exists>state. status_state (snd item) = Inr state) \<and>
           for_each (process_facility dlib) zones_init (filter commissioned facs) = Inr zones \<and>
           (\<forall>code z k. map_of zones code = Some z \<longrightarrow>
              for_each dec_add (DFin 0) (zone_contributions dlib code k facs) =
                Inr (capacity_get (capacity z) k)) \<and>
           (\<forall>code z. map_of zones code = Some z \<longrightarrow>
              fst ` set (capacity z) = {k. zone_contributions dlib code k facs \<noteq> []})"
proof -
  from main_Inr [OF assms(1)] assms(2) obtain zones jz where
    l: "for_each (process_facility dlib) zones_init facs = Inr zones"
    and j: "json_zones zones = Inr jz"
    and out: "out = dumps_sort_keys (JObj jz)"
    by auto
  from l have "zones_shape zones" by (rule for_each_process_shape)
  then have "map fst zones = zone_codes" by (simp add: zones_shape_def)
  moreover have "\<forall>item \<in> set facs. \<exists>state. status_state (snd item) = Inr state"
    using for_each_process_states [OF l] by blast
  moreover note for_each_process_filter [OF l]
  moreover have "\<forall>code z k. map_of zones code = Some z \<longrightarrow>
              for_each dec_add (DFin 0) (zone_contributions dlib code k facs) =
                Inr (capacity_get (capacity z) k)"
    using run_totals [OF l] by blast
  moreover have "\<forall>code z. map_of zones code = Some z \<longrightarrow>
              fst ` set (capacity z) = {k. zone_contributions dlib code k facs \<noteq> []}"
    using run_totals [OF l] by blast
  ultimately show ?thesis
    using l j out by blast
qed

subsection \<open>The printed capacities\<close>

lemma map_of_sort_key:
  "distinct (map fst xs) \<Longrightarrow> map_of (sort_key fst xs) = map_of xs"
  by (rule map_of_inject_set [THEN iffD2]) (simp_all add: distinct_map)

lemma map_of_map_prod:
  "map_of (map (map_prod id f) xs) k = map_option f (map_of xs k)"
  by (induction xs) auto

lemma round_float_2_JFloat: "round_float_2 v = Inr r \<Longrightarrow> \<exists>x. r = JFloat x"
  by (auto simp: round_float_2_def split: sum.splits)

lemma rounded_capacity_distinct:
  assumes "rounded_capacity cap = Inr jc"
  shows "distinct (map fst jc)"
proof -
  have "distinct (map fst ([] :: (string \<times> json) list))" by simp
  with _ show ?thesis
    by (rule for_each_invariant [where P = "\<lambda>d. distinct (map fst d)",
          OF _ _ assms [unfolded rounded_capacity_def]])
       (auto simp: distinct_update split: sum.splits)
qed

lemma rounded_capacity_absent:
  assumes "rounded_capacity cap = Inr jc" and "k \<notin> fst ` set cap"
  shows "map_of jc k = None"
  using rounded_capacity_other [OF assms(1) [unfolded rounded_capacity_def] assms(2)]
  by simp

text \<open>The \<open>capacity\<close> dictionary as it is printed: a fuel type has a value if and only if
  it has a total, and the value is \<open>round(float(total), 2)\<close>.\<close>

lemma rounded_capacity_printed:
  assumes "rounded_capacity cap = Inr jc" and "distinct (map fst cap)"
  shows "\<exists>pc. dumps_sort_keys (JObj jc) = JObj pc \<and>
           (\<forall>k. case map_of cap k of
                  None \<Rightarrow> map_of pc k = None
                | Some v \<Rightarrow> (\<exists>r. round_float_2 v = Inr r \<and> map_of pc k = Some r))"
proof -
  define pc where "pc = sort_key fst (map (map_prod id dumps_sort_keys) jc)"
  have d: "distinct (map fst (map (map_prod id dumps_sort_keys) jc))"
    using rounded_capacity_distinct [OF assms(1)] by (simp add: comp_def)
  have p: "map_of pc k = map_option dumps_sort_keys (map_of jc k)" for k
    unfolding pc_def by (simp add: map_of_sort_key [OF d] map_of_map_prod)
  have "case map_of cap k of
          None \<Rightarrow> map_of pc k = None
        | Some v \<Rightarrow> (\<exists>r. round_float_2 v = Inr r \<and> map_of pc k = Some r)" for k
  proof (cases "map_of cap k")
    case None
    then have "k \<notin> fst ` set cap" by (simp add: map_of_eq_None_iff)
    from rounded_capacity_absent [OF assms(1) this] None show ?thesis
      by (simp add: p)
  next
    case (Some v)
    from rounded_capacity_lookup [OF assms Some] obtain r where
      r: "round_float_2 v = Inr r" and m: "map_of jc k = Some r"
      by blast
    from round_float_2_JFloat [OF r] obtain x where "r = JFloat x" ..
    with r m Some show ?thesis
      by (simp add: p)
  qed
  moreover have "dumps_sort_keys (JObj jc) = JObj pc"
    by (simp add: pc_def)
  ultimately show ?thesis
    by blast
qed

lemma dumps_merged_entry:
  "\<exists>entry. dumps_sort_keys (JObj (merged_entry code cap)) = JObj entry \<and>
           map_of entry ''capacity'' = Some (dumps_sort_keys (JObj cap))"
proof -
  have "sorted (map fst (map (map_prod id dumps_sort_keys) (merged_entry code cap)))"
    by (simp add: merged_entry_def ZONE_BOILERPLATE_def)
  then have "sort_key fst (map (map_prod id dumps_sort_keys) (merged_entry code cap)) =
             map (map_prod id dumps_sort_keys) (merged_entry code cap)"
    by (rule sort_key_id_if_sorted)
  then show ?thesis
    by (simp add: merged_entry_def)
qed

lemma json_zones_lookup:
  assumes "zones_shape zones" and "json_zones zones = Inr jz"
    and "map_of zone_map code = Some key"
  shows "\<exists>z cap. map_of zones code = Some z \<and> rounded_capacity (capacity z) = Inr cap \<and>
           map_of jz key = Some (JObj (merged_entry code cap))"
proof -
  from assms(1) obtain z1 z2 z3 z4 z5 z6 where
    zs: "zones = [(''NSW1'', z1), (''QLD1'', z2), (''SA1'', z3), (''TAS1'', z4),
                  (''VIC1'', z5), (''WA1'', z6)]"
    and z: "zone z1 = ''NSW1''" "zone z2 = ''QLD1''" "zone z3 = ''SA1''"
           "zone z4 = ''TAS1''" "zone z5 = ''VIC1''" "zone z6 = ''WA1''"
    by (auto simp: zones_shape_def zone_codes_def)
  from assms(2) obtain o1 o2 o3 o4 o5 o6 where
    o: "output_dict z1 = Inr o1" "output_dict z2 = Inr o2" "output_dict z3 = Inr o3"
       "output_dict z4 = Inr o4" "output_dict z5 = Inr o5" "output_dict z6 = Inr o6"
    and jz: "jz = [(''AUS-NSW'', JObj o1), (''AUS-QLD'', JObj o2), (''AUS-SA'', JObj o3),
                   (''AUS-TAS'', JObj o4), (''AUS-VIC'', JObj o5), (''AUS-WA'', JObj o6)]"
    unfolding json_zones_def zs
    by (auto simp: z zone_map_eq split: sum.splits)
  have mz: "map_of zones ''NSW1'' = Some z1" "map_of zones ''QLD1'' = Some z2"
    "map_of zones ''SA1'' = Some z3" "map_of zones ''TAS1'' = Some z4"
    "map_of zones ''VIC1'' = Some z5" "map_of zones ''WA1'' = Some z6"
    by (simp_all add: zs)
  have mj: "map_of jz ''AUS-NSW'' = Some (JObj o1)" "map_of jz ''AUS-QLD'' = Some (JObj o2)"
    "map_of jz ''AUS-SA'' = Some (JObj o3)" "map_of jz ''AUS-TAS'' = Some (JObj o4)"
    "map_of jz ''AUS-VIC'' = Some (JObj o5)" "map_of jz ''AUS-WA'' = Some (JObj o6)"
    by (simp_all add: jz)
  have r: "\<exists>cap. rounded_capacity (capacity zi) = Inr cap \<and>
             map_of jz k = Some (JObj (merged_entry c cap))"
    if "output_dict zi = Inr oi" and "zone zi = c" and "map_of jz k = Some (JObj oi)"
    for zi oi c k
    using output_dict_Inr [OF that(1)] that(2,3) by auto
  from assms(3) consider
    "code = ''NSW1''" "key = ''AUS-NSW''" | "code = ''QLD1''" "key = ''AUS-QLD''"
    | "code = ''SA1''" "key = ''AUS-SA''" | "code = ''TAS1''" "key = ''AUS-TAS''"
    | "code = ''VIC1''" "key = ''AUS-VIC''" | "code = ''WA1''" "key = ''AUS-WA''"
    by (auto simp: zone_map_eq split: if_splits)
  then show ?thesis
  proof cases
    case 1
    with r [OF o(1) z(1) mj(1)] mz(1) show ?thesis by blast
  next
    case 2
    with r [OF o(2) z(2) mj(2)] mz(2) show ?thesis by blast
  next
    case 3
    with r [OF o(3) z(3) mj(3)] mz(3) show ?thesis by blast
  next
    case 4
    with r [OF o(4) z(4) mj(4)] mz(4) show ?thesis by blast
  next
    case 5
    with r [OF o(5) z(5) mj(5)] mz(5) show ?thesis by blast
  next
    case 6
    with r [OF o(6) z(6) mj(6)] mz(6) show ?thesis by blast
  qed
qed

lemma printed_capacity_lookup:
  assumes "snd (main json_loads dlib env) = Inr out"
    and "parsed_facilities json_loads env = Inr (JObj facs)"
    and "map_of zone_map code = Some key"
  shows "\<exists>zones z pc. for_each (process_facility dlib) zones_init facs = Inr zones \<and>
           map_of zones code = Some z \<and>
           printed_capacities out key = Some pc \<and>
           (\<forall>k. case map_of (capacity z) k of
                  None \<Rightarrow> map_of pc k = None
                | Some v \<Rightarrow> (\<exists>r. round_float_2 v = Inr r \<and> map_of pc k = Some r))"
proof -
  from main_Inr [OF assms(1)] assms(2) obtain zones jz where
    l: "for_each (process_facility dlib) zones_init facs = Inr zones"
    and j: "json_zones zones = Inr jz"
    and out: "out = dumps_sort_keys (JObj jz)"
    by auto
  from l have sh: "zones_shape zones" by (rule for_each_process_shape)
  from sh j have k: "map fst jz = output_codes" by (rule json_zones_keys)
  have "sorted (map fst (map (map_prod id dumps_sort_keys) jz))"
    by (simp add: k sorted_output_codes comp_def)
  then have "sort_key fst (map (map_prod id dumps_sort_keys) jz) =
             map (map_prod id dumps_sort_keys) jz"
    by (rule sort_key_id_if_sorted)
  with out have out': "out = JObj (map (map_prod id dumps_sort_keys) jz)" by simp
  from json_zones_lookup [OF sh j assms(3)] obtain z cap where
    mz: "map_of zones code = Some z"
    and rc: "rounded_capacity (capacity z) = Inr cap"
    and mj: "map_of jz key = Some (JObj (merged_entry code cap))"
    by blast
  from dumps_merged_entry [of code cap] obtain entry where
    e: "dumps_sort_keys (JObj (merged_entry code cap)) = JObj entry"
    and ec: "map_of entry ''capacity'' = Some (dumps_sort_keys (JObj cap))"
    by blast
  from run_totals [OF l mz] have "distinct (map fst (capacity z))" by simp
  from rounded_capacity_printed [OF rc this] obtain pc where
    pc: "dumps_sort_keys (JObj cap) = JObj pc"
    and v: "\<And>k. case map_of (capacity z) k of
                  None \<Rightarrow> map_of pc k = None
                | Some v \<Rightarrow> (\<exists>r. round_float_2 v = Inr r \<and> map_of pc k = Some r)"
    by blast
  have "printed_capacities out key = Some pc"
    unfolding out' printed_capacities_def
    by (simp add: map_of_map_prod mj e ec pc del: dumps_sort_keys.simps)
  with l mz v show ?thesis
    by blast
qed

text \<open>C3, as amended. For every zone and fuel type of a run that prints: the total is
  the chain of \<open>Decimal\<close> additions, starting from zero and under the default context (every
  partial sum rounded half-even to 28 significant digits), of the registered capacities
  of the contributing DUIDs; the zone's entry has a \<open>capacity\<close> dictionary, in which
  nothing is printed for a fuel type without a contribution, and otherwise the printed
  value is \<open>round(float(total), 2)\<close>. When the contributions are
  finite, the context's rounding changes no partial sum and the exact sum is a binary64
  float, then the total is the exact sum and the printed value is the exact sum rounded
  to two decimal places (as the float nearest to it). \<open>exact_steps_binary_fractions\<close>
  gives a class of values for which this is so: nonnegative multiples of \<open>2\<^sup>-\<^sup>j\<close>,
  \<open>j \<le> 17\<close>, with a total below \<open>2\<^sup>5\<^sup>3\<^sup>-\<^sup>j\<close>; integers are the case \<open>j = 0\<close>.\<close>

theorem printed_capacity_rounds_decimal_total:
  assumes "snd (main json_loads dlib env) = Inr out"
    and "parsed_facilities json_loads env = Inr (JObj facs)"
    and "map_of zone_map code = Some key"
  shows "\<exists>total printed.
           for_each dec_add (DFin 0) (zone_contributions dlib code k facs) = Inr total \<and>
           printed_capacities out key = Some printed \<and>
           (if zone_contributions dlib code k facs = [] then map_of printed k = None
            else (\<exists>r. round_float_2 total = Inr r \<and> map_of printed k = Some r)) \<and>
           (\<forall>qs. zone_contributions dlib code k facs = map DFin qs \<and> qs \<noteq> [] \<and>
                 exact_steps 0 qs \<and> b64 (sum_list qs) = FFin (sum_list qs) \<longrightarrow>
                 total = DFin (sum_list qs) \<and>
                 map_of printed k = Some (JFloat (b64 (two_places (sum_list qs)))))"
proof -
  from printed_capacity_lookup [OF assms] obtain zones z printed where
    l: "for_each (process_facility dlib) zones_init facs = Inr zones"
    and mz: "map_of zones code = Some z"
    and pc: "printed_capacities out key = Some printed"
    and vs: "\<forall>k. case map_of (capacity z) k of
              None \<Rightarrow> map_of printed k = None
            | Some v \<Rightarrow> (\<exists>r. round_float_2 v = Inr r \<and> map_of printed k = Some r)"
    by blast
  from vs have v: "case map_of (capacity z) k of
              None \<Rightarrow> map_of printed k = None
            | Some v \<Rightarrow> (\<exists>r. round_float_2 v = Inr r \<and> map_of printed k = Some r)"
    by blast
  define total where "total = capacity_get (capacity z) k"
  from run_totals [OF l mz]
  have t: "for_each dec_add (DFin 0) (zone_contributions dlib code k facs) = Inr total"
    and ks: "fst ` set (capacity z) = {k. zone_contributions dlib code k facs \<noteq> []}"
    by (simp_all add: total_def)
  have p: "if zone_contributions dlib code k facs = [] then map_of printed k = None
           else (\<exists>r. round_float_2 total = Inr r \<and> map_of printed k = Some r)"
  proof (cases "zone_contributions dlib code k facs = []")
    case True
    with ks have "k \<notin> fst ` set (capacity z)" by simp
    then have "map_of (capacity z) k = None" by (simp add: map_of_eq_None_iff)
    with v True show ?thesis by simp
  next
    case False
    with ks have "k \<in> fst ` set (capacity z)" by simp
    then obtain d where d: "map_of (capacity z) k = Some d"
      by (cases "map_of (capacity z) k") (auto simp: map_of_eq_None_iff)
    then have "total = d" by (simp add: total_def capacity_get_def)
    with v d False show ?thesis by simp
  qed
  have "total = DFin (sum_list qs) \<and>
        map_of printed k = Some (JFloat (b64 (two_places (sum_list qs))))"
    if q: "zone_contributions dlib code k facs = map DFin qs \<and> qs \<noteq> [] \<and>
           exact_steps 0 qs \<and> b64 (sum_list qs) = FFin (sum_list qs)" for qs
  proof -
    from q have e: "exact_steps 0 qs" and b: "b64 (sum_list qs) = FFin (sum_list qs)"
      and c: "zone_contributions dlib code k facs = map DFin qs" and n: "qs \<noteq> []"
      by simp_all
    from exact_steps_sum [OF e] t have tt: "total = DFin (sum_list qs)"
      by (simp add: c)
    from n c have "zone_contributions dlib code k facs \<noteq> []" by simp
    with p obtain r where r: "round_float_2 total = Inr r"
      and pr: "map_of printed k = Some r"
      by auto
    from round_float_2_exact [OF b r [unfolded tt]] tt pr show ?thesis by simp
  qed
  with t pc p show ?thesis by blast
qed

subsection \<open>Values that are summed exactly\<close>

lemma round_half_even_of_int: "round_half_even (of_int n) = n"
  by (simp add: round_half_even_def)

text \<open>\<open>ilog b q\<close> is the floor of the logarithm: \<open>b\<^bsup>ilog b q\<^esup> \<le> q < b\<^bsup>ilog b q + 1\<^esup>\<close>.\<close>

lemma ilog_bounds:
  assumes "0 < q" and "1 < b"
  shows "of_nat b powi (ilog b q) \<le> q \<and> q < of_nat b powi (ilog b q + 1)"
proof (cases "1 \<le> q")
  case True
  define n where "n = nat \<lfloor>q\<rfloor>"
  from True have n: "0 < n" and nq: "of_nat n = (of_int \<lfloor>q\<rfloor> :: rat)"
    by (simp_all add: n_def)
  from floorlog_bounds [OF n assms(2)]
  have lo: "b ^ (floorlog b n - 1) \<le> n" and hi: "n < b ^ floorlog b n" by simp_all
  from n assms(2) have "floorlog b n \<noteq> 0"
    by (simp add: floorlog_eq_zero_iff)
  then have f: "0 < floorlog b n" by simp
  have i: "ilog b q = int (floorlog b n - 1)"
    using True f by (simp add: ilog_def n_def)
  have i1: "ilog b q + 1 = int (floorlog b n)"
    using f by (simp add: i)
  from lo have "(of_nat (b ^ (floorlog b n - 1)) :: rat) \<le> of_nat n"
    by (simp only: of_nat_le_iff)
  also have "\<dots> \<le> q" by (simp add: nq)
  finally have 1: "of_nat b powi (ilog b q) \<le> q"
    by (simp add: i)
  from hi have "Suc n \<le> b ^ floorlog b n" by simp
  then have "(of_nat (Suc n) :: rat) \<le> of_nat (b ^ floorlog b n)"
    by (simp only: of_nat_le_iff)
  moreover have "q < of_nat (Suc n)"
    by (simp add: nq) linarith
  ultimately have "q < of_nat (b ^ floorlog b n)" by simp
  then have 2: "q < of_nat b powi (ilog b q + 1)"
    by (simp add: i1)
  from 1 2 show ?thesis ..
next
  case False
  define m where "m = nat (\<lceil>1 / q\<rceil> - 1)"
  from False assms(1) have r: "1 < 1 / q" by simp
  then have c: "2 \<le> \<lceil>1 / q\<rceil>" by linarith
  then have m: "0 < m" unfolding m_def by linarith
  from c have "0 \<le> \<lceil>1 / q\<rceil> - 1" by linarith
  then have "int m = \<lceil>1 / q\<rceil> - 1" unfolding m_def by (rule nat_0_le)
  then have "(of_int (int m) :: rat) = of_int (\<lceil>1 / q\<rceil> - 1)" by (simp only:)
  then have mq: "(of_nat m :: rat) = of_int \<lceil>1 / q\<rceil> - 1" by simp
  from floorlog_bounds [OF m assms(2)]
  have lo: "b ^ (floorlog b m - 1) \<le> m" and hi: "m < b ^ floorlog b m" by simp_all
  from m assms(2) have "floorlog b m \<noteq> 0"
    by (simp add: floorlog_eq_zero_iff)
  then have f: "0 < floorlog b m" by simp
  have i: "ilog b q = - int (floorlog b m)"
    using False by (simp add: ilog_def m_def)
  have bp: "(0::rat) < of_nat b ^ k" for k
    using assms(2) by simp
  from hi have "Suc m \<le> b ^ floorlog b m" by simp
  then have "(of_nat (Suc m) :: rat) \<le> of_nat (b ^ floorlog b m)"
    by (simp only: of_nat_le_iff)
  moreover have "1 / q \<le> of_nat (Suc m)"
    by (simp add: mq)
  ultimately have "1 / q \<le> of_nat b ^ floorlog b m" by simp
  with assms(1) bp [of "floorlog b m"] have "1 / of_nat b ^ floorlog b m \<le> q"
    by (simp add: field_simps)
  then have 1: "of_nat b powi (ilog b q) \<le> q"
    by (simp add: i power_int_minus inverse_eq_divide)
  from lo have "(of_nat (b ^ (floorlog b m - 1)) :: rat) \<le> of_nat m"
    by (simp only: of_nat_le_iff)
  also have "\<dots> < 1 / q"
    by (simp add: mq) linarith
  finally have "of_nat b ^ (floorlog b m - 1) < 1 / q" by simp
  with assms(1) bp [of "floorlog b m - 1"] have "q < 1 / of_nat b ^ (floorlog b m - 1)"
    by (simp add: field_simps)
  moreover have "ilog b q + 1 = - int (floorlog b m - 1)"
    using f by (simp add: i)
  ultimately have 2: "q < of_nat b powi (ilog b q + 1)"
    by (simp add: power_int_minus inverse_eq_divide)
  from 1 2 show ?thesis ..
qed

lemma ilog_less:
  assumes "0 < q" and "q < of_nat b ^ m" and "1 < b"
  shows "ilog b q < int m"
proof (cases "1 \<le> q")
  case True
  have "of_int \<lfloor>q\<rfloor> \<le> q" by simp
  also note assms(2)
  finally have "of_int \<lfloor>q\<rfloor> < (of_int (int b ^ m) :: rat)" by simp
  then have "\<lfloor>q\<rfloor> < int b ^ m" by (simp only: of_int_less_iff)
  moreover from True have "0 \<le> \<lfloor>q\<rfloor>" by simp
  ultimately have "nat \<lfloor>q\<rfloor> < b ^ m"
    by (metis nat_less_iff of_nat_power)
  then have "floorlog b (nat \<lfloor>q\<rfloor>) \<le> m"
    using assms(3) by (intro floorlog_leI) simp_all
  with True show ?thesis by (simp add: ilog_def)
next
  case False
  with assms(1) have "1 < 1 / q" by simp
  then have "2 \<le> \<lceil>1 / q\<rceil>" by linarith
  then have "0 < nat (\<lceil>1 / q\<rceil> - 1)" by simp
  with assms(3) have "floorlog b (nat (\<lceil>1 / q\<rceil> - 1)) \<noteq> 0"
    by (simp add: floorlog_eq_zero_iff)
  with False show ?thesis by (simp add: ilog_def)
qed

lemma round_to_exact:
  assumes "e \<le> - int j" and "B \<noteq> 0"
  shows "round_to (of_int B) e (of_int n / of_int B ^ j) = of_int n / of_int B ^ j"
proof -
  define d where "d = nat (- e) - j"
  from assms(1) have e: "e = - int (d + j)" by (simp add: d_def)
  have "(of_int B :: rat) powi e = inverse (of_int B ^ (d + j))"
    unfolding e by (simp only: power_int_minus power_int_of_nat)
  then have p: "(of_int B :: rat) powi e = 1 / (of_int B ^ d * of_int B ^ j)"
    by (simp add: power_add inverse_eq_divide)
  from assms(2) have "of_int n / of_int B ^ j / ((of_int B :: rat) powi e) = of_int (n * B ^ d)"
    by (simp add: p)
  then have "round_half_even (of_int n / of_int B ^ j / ((of_int B :: rat) powi e)) = n * B ^ d"
    by (simp only: round_half_even_of_int)
  with assms(2) show ?thesis
    by (simp add: round_to_def p)
qed

lemma b64_dyadic:
  assumes "\<bar>n\<bar> < 2 ^ 53" and "j \<le> 52"
  shows "b64 (of_int n / 2 ^ j) = FFin (of_int n / 2 ^ j)"
proof (cases "n = 0")
  case True
  then show ?thesis by (simp add: b64_def)
next
  case False
  define q :: rat where "q = of_int n / 2 ^ j"
  from False have q0: "q \<noteq> 0" and qp: "0 < \<bar>q\<bar>" by (simp_all add: q_def)
  have "\<bar>q\<bar> = of_int \<bar>n\<bar> / 2 ^ j" by (simp add: q_def)
  also have "\<dots> < of_int (2 ^ 53) / 2 ^ j"
    using assms(1) by (intro divide_strict_right_mono) (simp_all only: of_int_less_iff, simp)
  also have "\<dots> = 2 ^ (53 - j)"
    using assms(2) by (simp add: power_diff)
  finally have b: "\<bar>q\<bar> < of_nat 2 ^ (53 - j)" by simp
  from ilog_less [OF qp b] have i: "ilog 2 \<bar>q\<bar> < int (53 - j)" by simp
  with assms(2) have e: "max (ilog 2 \<bar>q\<bar> - 52) (- 1074) \<le> - int j" by simp
  from round_to_exact [OF e, of 2 n]
  have r: "round_to 2 (max (ilog 2 \<bar>q\<bar> - 52) (- 1074)) q = q" by (simp add: q_def)
  from i have "\<not> 1023 < ilog 2 \<bar>q\<bar>" by simp
  with q0 r show ?thesis
    unfolding q_def [symmetric] by (simp add: b64_def Let_def)
qed

lemma context_round_dyadic:
  assumes "\<bar>n\<bar> < 2 ^ 53" and "j \<le> 17"
  shows "context_round (of_int n / 2 ^ j) = Inr (DFin (of_int n / 2 ^ j))"
proof (cases "n = 0")
  case True
  then show ?thesis by (simp add: context_round_def)
next
  case False
  define q :: rat where "q = of_int n / 2 ^ j"
  from False have q0: "q \<noteq> 0" and qp: "0 < \<bar>q\<bar>" by (simp_all add: q_def)
  have five: "(5::int) ^ j \<le> 5 ^ 17"
    using assms(2) by (intro power_increasing) simp_all
  have "\<bar>n * 5 ^ j\<bar> = \<bar>n\<bar> * 5 ^ j" by (simp add: abs_mult)
  also have "\<dots> \<le> \<bar>n\<bar> * 5 ^ 17" using five by (intro mult_left_mono) simp_all
  also have "\<dots> < 2 ^ 53 * 5 ^ 17" using assms(1) by simp
  also have "\<dots> < (10::int) ^ 28" by simp
  finally have m: "\<bar>n * 5 ^ j\<bar> < 10 ^ 28" .
  have qd: "q = of_int (n * 5 ^ j) / of_int 10 ^ j"
  proof -
    have "(of_int 10 :: rat) ^ j = 2 ^ j * 5 ^ j"
      by (simp add: power_mult_distrib [symmetric])
    then show ?thesis by (simp add: q_def)
  qed
  have "\<bar>q\<bar> = of_int \<bar>n * 5 ^ j\<bar> / 10 ^ j" by (simp add: qd abs_mult)
  also have "\<dots> < of_int (10 ^ 28) / 10 ^ j"
    using m by (intro divide_strict_right_mono) (simp_all only: of_int_less_iff, simp)
  also have "\<dots> = 10 ^ (28 - j)"
    using assms(2) by (simp add: power_diff)
  finally have b: "\<bar>q\<bar> < of_nat 10 ^ (28 - j)" by simp
  from ilog_less [OF qp b] have i: "ilog 10 \<bar>q\<bar> < int (28 - j)" by simp
  with assms(2) have e: "max (ilog 10 \<bar>q\<bar> - 27) (- 1000026) \<le> - int j" by simp
  from round_to_exact [OF e, of 10 "n * 5 ^ j"]
  have r: "round_to 10 (max (ilog 10 \<bar>q\<bar> - 27) (- 1000026)) q = q"
    by (simp only: qd) simp
  from i have "\<not> 999999 < ilog 10 \<bar>q\<bar>" by simp
  with q0 r show ?thesis
    unfolding q_def [symmetric] by (simp add: context_round_def Let_def)
qed

lemma binary_fraction_add:
  "binary_fraction j a \<Longrightarrow> binary_fraction j b \<Longrightarrow> binary_fraction j (a + b)"
proof -
  assume a: "binary_fraction j a" and b: "binary_fraction j b"
  then obtain na nb where "a * 2 ^ j = of_int na" and "b * 2 ^ j = of_int nb"
    by (auto simp: binary_fraction_def)
  then have "(a + b) * 2 ^ j = of_int (na + nb)"
    by (simp add: distrib_right)
  then have "\<exists>n. (a + b) * 2 ^ j = of_int n" ..
  with a b show ?thesis by (simp add: binary_fraction_def)
qed

lemma binary_fraction_exact:
  assumes "binary_fraction j q" and "q < 2 ^ (53 - j)" and "j \<le> 17"
  shows "context_round q = Inr (DFin q)" and "b64 q = FFin q"
proof -
  from assms(1) obtain n where qn: "q * 2 ^ j = of_int n" and "0 \<le> q"
    by (auto simp: binary_fraction_def)
  then have q: "q = of_int n / 2 ^ j"
    by (simp add: field_simps)
  from assms(2,3) have "q * 2 ^ j < 2 ^ (53 - j) * 2 ^ j" by simp
  also have "\<dots> = (2::rat) ^ 53"
    using assms(3) by (simp add: power_add [symmetric])
  finally have "of_int n < (of_int (2 ^ 53) :: rat)"
    by (simp add: qn)
  then have "n < 2 ^ 53" by (simp only: of_int_less_iff)
  moreover have "0 \<le> n"
  proof -
    from \<open>0 \<le> q\<close> have "0 \<le> q * 2 ^ j" by simp
    then have "(0::rat) \<le> of_int n" by (simp only: qn)
    then show ?thesis by simp
  qed
  ultimately have n: "\<bar>n\<bar> < 2 ^ 53" by simp
  from context_round_dyadic [OF n assms(3)] show "context_round q = Inr (DFin q)"
    by (simp add: q)
  from assms(3) have "j \<le> 52" by simp
  from b64_dyadic [OF n this] show "b64 q = FFin q"
    by (simp add: q)
qed

lemma exact_steps_binary_fractions:
  assumes "binary_fraction j t" and "\<forall>q \<in> set qs. binary_fraction j q"
    and "t + sum_list qs < 2 ^ (53 - j)" and "j \<le> 17"
  shows "exact_steps t qs \<and> b64 (t + sum_list qs) = FFin (t + sum_list qs)"
  using assms(1,2,3)
proof (induction qs arbitrary: t)
  case Nil
  with binary_fraction_exact(2) [OF _ _ assms(4), of t] show ?case by simp
next
  case (Cons q qs)
  from Cons.prems(1,2) have s: "binary_fraction j (t + q)"
    by (simp add: binary_fraction_add)
  have "0 \<le> sum_list qs"
    using Cons.prems(2) by (intro sum_list_nonneg) (simp add: binary_fraction_def)
  with Cons.prems(3) have "t + q < 2 ^ (53 - j)" by simp
  from binary_fraction_exact(1) [OF s this assms(4)]
  have c: "context_round (t + q) = Inr (DFin (t + q))" .
  from Cons.IH [OF s] Cons.prems(2,3)
  have "exact_steps (t + q) qs \<and> b64 (t + q + sum_list qs) = FFin (t + q + sum_list qs)"
    by (simp add: add.assoc)
  with c show ?case by (simp add: add.assoc)
qed

subsection \<open>Sums that are not exact\<close>

text \<open>C3 as stated fails. Two solar units of \<open>0.125\<close> and \<open>2\<^sup>-\<^sup>7\<^sup>0\<close>: the total is the
  sum rounded to 28 significant digits, \<open>float\<close> of it is \<open>0.125\<close>, and \<open>round(0.125, 2)\<close>
  is \<open>0.12\<close>, which is printed; the exact sum of the two contributions is above \<open>0.125\<close> and
  rounds to \<open>0.13\<close>.\<close>

theorem printed_value_not_exact_sum:
  "update_capacity reject_decimal (OpenNEMZone_init ''NSW1'') (JObj tie_duids) =
     Inr ((OpenNEMZone_init ''NSW1'')
            \<lparr>capacity := [(''solar'', DFin (1250000000000000000008470329 / 10 ^ 28))]\<rparr>) \<and>
   contributions reject_decimal ''solar'' tie_duids = [DFin (1 / 8), DFin (1 / 2 ^ 70)] \<and>
   rounded_capacity [(''solar'', DFin (1250000000000000000008470329 / 10 ^ 28))] =
     Inr [(''solar'', float_lit (12 / 100))] \<and>
   two_places (1 / 8 + 1 / 2 ^ 70) = 13 / 100 \<and>
   float_lit (12 / 100) \<noteq> float_lit (13 / 100)"
proof -
  have 1: "update_capacity reject_decimal (OpenNEMZone_init ''NSW1'') (JObj tie_duids) =
     Inr ((OpenNEMZone_init ''NSW1'')
            \<lparr>capacity := [(''solar'', DFin (1250000000000000000008470329 / 10 ^ 28))]\<rparr>)"
    by code_simp
  have 2: "contributions reject_decimal ''solar'' tie_duids = [DFin (1 / 8), DFin (1 / 2 ^ 70)]"
    by code_simp
  have 3: "rounded_capacity [(''solar'', DFin (1250000000000000000008470329 / 10 ^ 28))] =
     Inr [(''solar'', float_lit (12 / 100))]"
    by code_simp
  have 4: "two_places (1 / 8 + 1 / 2 ^ 70) = 13 / 100"
    by code_simp
  have 5: "float_lit (12 / 100) \<noteq> float_lit (13 / 100)"
    by code_simp
  from 1 2 3 4 5 show ?thesis by blast
qed

text \<open>The same with values of ordinary size. The floats \<open>0.001\<close> and \<open>1.004\<close> have an
  exact sum just above \<open>1.005\<close>, which rounds to \<open>1.01\<close>; the float nearest to the sum is
  below \<open>1.005\<close>, and \<open>1.0\<close> is printed.\<close>

lemma ordinary_values_differ:
  "float_lit (1 / 1000) = JFloat (FFin (1152921504606847 / 2 ^ 60)) \<and>
   float_lit (1004 / 1000) = JFloat (FFin (2260807012939989 / 2 ^ 51)) \<and>
   (case update_capacity reject_decimal (OpenNEMZone_init ''NSW1'') (JObj small_duids) of
      Inl e \<Rightarrow> Inl e
    | Inr z \<Rightarrow> rounded_capacity (capacity z)) = Inr [(''solar'', float_lit 1)] \<and>
   two_places (1152921504606847 / 2 ^ 60 + 2260807012939989 / 2 ^ 51) = 101 / 100"
proof -
  have 1: "float_lit (1 / 1000) = JFloat (FFin (1152921504606847 / 2 ^ 60))"
    by code_simp
  have 2: "float_lit (1004 / 1000) = JFloat (FFin (2260807012939989 / 2 ^ 51))"
    by code_simp
  have 3: "(case update_capacity reject_decimal (OpenNEMZone_init ''NSW1'') (JObj small_duids) of
      Inl e \<Rightarrow> Inl e
    | Inr z \<Rightarrow> rounded_capacity (capacity z)) = Inr [(''solar'', float_lit 1)]"
    by code_simp
  have 4: "two_places (1152921504606847 / 2 ^ 60 + 2260807012939989 / 2 ^ 51) = 101 / 100"
    by code_simp
  from 1 2 3 4 show ?thesis by blast
qed

text \<open>The conditions of the exact case are sufficient, not necessary. A single unit of
  \<open>0.1\<close>: the float has 55 significant digits, the addition to zero rounds it to 28, and
  what is printed is still the exact value rounded to two decimal places.\<close>

lemma single_tenth_prints_exact_rounding:
  "float_lit (1 / 10) = JFloat (FFin (3602879701896397 / 2 ^ 55)) \<and>
   contributions reject_decimal ''solar'' tenth_duids = [DFin (3602879701896397 / 2 ^ 55)] \<and>
   \<not> exact_steps 0 [3602879701896397 / 2 ^ 55] \<and>
   update_capacity reject_decimal (OpenNEMZone_init ''NSW1'') (JObj tenth_duids) =
     Inr ((OpenNEMZone_init ''NSW1'')
            \<lparr>capacity := [(''solar'', DFin (1000000000000000055511151231 / 10 ^ 28))]\<rparr>) \<and>
   rounded_capacity [(''solar'', DFin (1000000000000000055511151231 / 10 ^ 28))] =
     Inr [(''solar'', float_lit (1 / 10))] \<and>
   two_places (3602879701896397 / 2 ^ 55) = 1 / 10"
proof -
  have 1: "float_lit (1 / 10) = JFloat (FFin (3602879701896397 / 2 ^ 55))"
    by code_simp
  have 2: "contributions reject_decimal ''solar'' tenth_duids =
             [DFin (3602879701896397 / 2 ^ 55)]"
    by code_simp
  have 3: "\<not> exact_steps 0 [3602879701896397 / 2 ^ 55]"
    by code_simp
  have 4: "update_capacity reject_decimal (OpenNEMZone_init ''NSW1'') (JObj tenth_duids) =
     Inr ((OpenNEMZone_init ''NSW1'')
            \<lparr>capacity := [(''solar'', DFin (1000000000000000055511151231 / 10 ^ 28))]\<rparr>)"
    by code_simp
  have 5: "rounded_capacity [(''solar'', DFin (1000000000000000055511151231 / 10 ^ 28))] =
     Inr [(''solar'', float_lit (1 / 10))]"
    by code_simp
  have 6: "two_places (3602879701896397 / 2 ^ 55) = 1 / 10"
    by code_simp
  from 1 2 3 4 5 6 show ?thesis by blast
qed

subsection \<open>The properties on the sample registry\<close>

theorem update_capacity_counts_normalized_witness:
  "update_capacity reject_decimal (OpenNEMZone_init ''QLD1'') (JObj mixed_duids) =
     Inr ((OpenNEMZone_init ''QLD1'')\<lparr>capacity := mixed_capacity\<rparr>) \<and>
   contributions reject_decimal ''gas'' mixed_duids = [DFin 40, DFin 60] \<and>
   for_each dec_add (DFin 0) [DFin 40, DFin 60] = Inr (capacity_get mixed_capacity ''gas'') \<and>
   capacity_get mixed_capacity ''gas'' = DFin 100 \<and>
   contributions reject_decimal ''biomass'' mixed_duids = [DFin 5] \<and>
   contributions reject_decimal ''oil'' mixed_duids = [DFin 7] \<and>
   contributions reject_decimal ''battery storage'' mixed_duids = [DFin 100] \<and>
   contributions reject_decimal ''wind'' mixed_duids = [DFin 30] \<and>
   contributions reject_decimal ''gas_ocgt'' mixed_duids = [] \<and>
   contributions reject_decimal ''pumps'' mixed_duids = [] \<and>
   contributions reject_decimal ''battery_charging'' mixed_duids = [] \<and>
   counted_under (''G2'', JObj [(''fuel_tech'', JStr ''gas_ccgt''),
                                (''registered_capacity'', JInt 60)]) = Some ''gas'' \<and>
   counted_under (''P1'', JObj [(''fuel_tech'', JStr ''pumps''),
                                (''registered_capacity'', JInt 240)]) = None \<and>
   fst ` set mixed_capacity =
     fst ` set (capacity (OpenNEMZone_init ''QLD1'')) \<union>
     {k. contributions reject_decimal k mixed_duids \<noteq> []} \<and>
   map fst mixed_capacity = [''gas'', ''biomass'', ''oil'', ''battery storage'', ''wind'']"
proof -
  have h: "update_capacity reject_decimal (OpenNEMZone_init ''QLD1'') (JObj mixed_duids) =
     Inr ((OpenNEMZone_init ''QLD1'')\<lparr>capacity := mixed_capacity\<rparr>)"
    by code_simp
  have c: "contributions reject_decimal ''gas'' mixed_duids = [DFin 40, DFin 60]"
          "contributions reject_decimal ''biomass'' mixed_duids = [DFin 5]"
          "contributions reject_decimal ''oil'' mixed_duids = [DFin 7]"
          "contributions reject_decimal ''battery storage'' mixed_duids = [DFin 100]"
          "contributions reject_decimal ''wind'' mixed_duids = [DFin 30]"
          "contributions reject_decimal ''gas_ocgt'' mixed_duids = []"
          "contributions reject_decimal ''pumps'' mixed_duids = []"
          "contributions reject_decimal ''battery_charging'' mixed_duids = []"
    by code_simp+
  have u: "counted_under (''G2'', JObj [(''fuel_tech'', JStr ''gas_ccgt''),
                                (''registered_capacity'', JInt 60)]) = Some ''gas''"
          "counted_under (''P1'', JObj [(''fuel_tech'', JStr ''pumps''),
                                (''registered_capacity'', JInt 240)]) = None"
    by code_simp+
  have g: "capacity_get mixed_capacity ''gas'' = DFin 100"
          "capacity_get (capacity (OpenNEMZone_init ''QLD1'')) ''gas'' = DFin 0"
    by code_simp+
  have m: "map fst mixed_capacity = [''gas'', ''biomass'', ''oil'', ''battery storage'', ''wind'']"
    by (simp add: mixed_capacity_def)
  from update_capacity_counts_normalized [OF h]
  have t: "for_each dec_add (capacity_get (capacity (OpenNEMZone_init ''QLD1'')) ''gas'')
             (contributions reject_decimal ''gas'' mixed_duids) =
           Inr (capacity_get mixed_capacity ''gas'')"
    and k: "fst ` set mixed_capacity =
     fst ` set (capacity (OpenNEMZone_init ''QLD1'')) \<union>
     {k. contributions reject_decimal k mixed_duids \<noteq> []}"
    by auto
  from t have "for_each dec_add (DFin 0) [DFin 40, DFin 60] =
                 Inr (capacity_get mixed_capacity ''gas'')"
    by (simp only: c g)
  with h c u g(1) k m show ?thesis
    by blast
qed

theorem commissioned_facilities_only_witness:
  "snd (main example_json_loads reject_decimal (cached_env ''registry'')) = Inr example_output \<and>
   parsed_facilities example_json_loads (cached_env ''registry'') =
     Inr (JObj example_facilities) \<and>
   for_each (process_facility reject_decimal) zones_init example_facilities =
     Inr example_zones \<and>
   json_zones example_zones =
     Inr [(''AUS-NSW'', JObj (merged_entry ''NSW1'' [(''hydro'', JFloat (FFin 240))])),
          (''AUS-QLD'', JObj (merged_entry ''QLD1'' [])),
          (''AUS-SA'', JObj (merged_entry ''SA1'' [(''battery storage'', JFloat (FFin 100))])),
          (''AUS-TAS'', JObj (merged_entry ''TAS1'' [])),
          (''AUS-VIC'', JObj (merged_entry ''VIC1'' [])),
          (''AUS-WA'', JObj (merged_entry ''WA1'' []))] \<and>
   map fst example_zones = zone_codes \<and>
   status_state (JObj retired_station) = Inr (JStr ''Retired'') \<and>
   filter commissioned example_facilities =
     [(''SHOAL'', JObj shoalhaven), (''HPR'', JObj hornsdale)] \<and>
   for_each (process_facility reject_decimal) zones_init
     [(''SHOAL'', JObj shoalhaven), (''HPR'', JObj hornsdale)] = Inr example_zones \<and>
   map_of example_zones ''NSW1'' =
     Some ((OpenNEMZone_init ''NSW1'')\<lparr>capacity := [(''hydro'', DFin 240)]\<rparr>) \<and>
   zone_contributions reject_decimal ''NSW1'' ''hydro'' example_facilities = [DFin 240] \<and>
   zone_contributions reject_decimal ''NSW1'' ''coal_black'' example_facilities = [] \<and>
   for_each dec_add (DFin 0) [DFin 240] = Inr (DFin 240) \<and>
   for_each dec_add (DFin 0) [] = Inr (capacity_get [(''hydro'', DFin 240)] ''coal_black'') \<and>
   fst ` set [(''hydro'', DFin 240)] =
     {k. zone_contributions reject_decimal ''NSW1'' k example_facilities \<noteq> []}"
proof -
  have a: "snd (main example_json_loads reject_decimal (cached_env ''registry'')) =
             Inr example_output"
    by (simp add: example_run)
  have s: "status_state (JObj retired_station) = Inr (JStr ''Retired'')"
    by code_simp
  have f: "filter commissioned example_facilities =
             [(''SHOAL'', JObj shoalhaven), (''HPR'', JObj hornsdale)]"
    by code_simp
  have m: "map_of example_zones ''NSW1'' =
             Some ((OpenNEMZone_init ''NSW1'')\<lparr>capacity := [(''hydro'', DFin 240)]\<rparr>)"
    by (simp add: example_zones_eq)
  have c: "zone_contributions reject_decimal ''NSW1'' ''hydro'' example_facilities = [DFin 240]"
          "zone_contributions reject_decimal ''NSW1'' ''coal_black'' example_facilities = []"
    by code_simp+
  have g: "capacity_get [(''hydro'', DFin 240)] ''hydro'' = DFin 240"
    by (simp add: capacity_get_def)
  have sel: "capacity ((OpenNEMZone_init ''NSW1'')\<lparr>capacity := [(''hydro'', DFin 240)]\<rparr>) =
               [(''hydro'', DFin 240)]"
    by simp
  from commissioned_facilities_only [OF a example_parsed] obtain zones where
    0: "for_each (process_facility reject_decimal) zones_init example_facilities = Inr zones"
    and 1: "for_each (process_facility reject_decimal) zones_init
             (filter commissioned example_facilities) = Inr zones"
    and 2: "map fst zones = zone_codes"
    and 3: "\<forall>code z k. map_of zones code = Some z \<longrightarrow>
              for_each dec_add (DFin 0)
                (zone_contributions reject_decimal code k example_facilities) =
              Inr (capacity_get (capacity z) k)"
    and 4: "\<forall>code z. map_of zones code = Some z \<longrightarrow>
              fst ` set (capacity z) =
              {k. zone_contributions reject_decimal code k example_facilities \<noteq> []}"
    by blast
  from 0 have zs: "zones = example_zones"
    by (simp only: example_loop sum.inject)
  note 1 = 1 [unfolded zs] and 2 = 2 [unfolded zs]
  note 3 = 3 [unfolded zs, rule_format] and 4 = 4 [unfolded zs, rule_format]
  from 3 [OF m, of "''hydro''"] have 5: "for_each dec_add (DFin 0) [DFin 240] = Inr (DFin 240)"
    by (simp only: c g sel)
  from 3 [OF m, of "''coal_black''"]
  have 6: "for_each dec_add (DFin 0) [] =
             Inr (capacity_get [(''hydro'', DFin 240)] ''coal_black'')"
    by (simp only: c sel)
  from 4 [OF m] have 7: "fst ` set [(''hydro'', DFin 240)] =
     {k. zone_contributions reject_decimal ''NSW1'' k example_facilities \<noteq> []}"
    by (simp only: sel)
  from a example_parsed example_loop example_json_zones 2 s f 1 [unfolded f] m c 5 6 7
  show ?thesis
    by blast
qed

theorem printed_capacity_rounds_decimal_total_witness:
  "snd (main example_json_loads reject_decimal (cached_env ''registry'')) = Inr example_output \<and>
   parsed_facilities example_json_loads (cached_env ''registry'') =
     Inr (JObj example_facilities) \<and>
   map_of zone_map ''NSW1'' = Some ''AUS-NSW'' \<and>
   map_of zone_map ''QLD1'' = Some ''AUS-QLD'' \<and>
   zone_contributions reject_decimal ''NSW1'' ''hydro'' example_facilities = map DFin [240] \<and>
   exact_steps 0 [240] \<and>
   b64 (sum_list [240]) = FFin (sum_list [240]) \<and>
   for_each dec_add (DFin 0) (map DFin [240]) = Inr (DFin (sum_list [240])) \<and>
   round_float_2 (DFin (sum_list [240])) = Inr (JFloat (FFin 240)) \<and>
   printed_capacities example_output ''AUS-NSW'' = Some [(''hydro'', JFloat (FFin 240))] \<and>
   map_of [(''hydro'', JFloat (FFin 240))] ''hydro'' =
     Some (JFloat (b64 (two_places (sum_list [240])))) \<and>
   zone_contributions reject_decimal ''QLD1'' ''hydro'' example_facilities = [] \<and>
   printed_capacities example_output ''AUS-QLD'' = Some [] \<and>
   map_of ([] :: (string \<times> json) list) ''hydro'' = None"
proof -
  have a: "snd (main example_json_loads reject_decimal (cached_env ''registry'')) =
             Inr example_output"
    by (simp add: example_run)
  have z: "map_of zone_map ''NSW1'' = Some ''AUS-NSW''"
          "map_of zone_map ''QLD1'' = Some ''AUS-QLD''"
    by (simp_all add: zone_map_eq)
  have c: "zone_contributions reject_decimal ''NSW1'' ''hydro'' example_facilities =
             map DFin [240]"
          "zone_contributions reject_decimal ''QLD1'' ''hydro'' example_facilities = []"
    by code_simp+
  have e: "exact_steps 0 [240]"
    by code_simp
  have b: "b64 (sum_list [240]) = FFin (sum_list [240])"
    by code_simp
  have r: "round_float_2 (DFin (sum_list [240])) = Inr (JFloat (FFin 240))"
    by code_simp
  have pe: "printed_capacities example_output ''AUS-NSW'' = Some [(''hydro'', JFloat (FFin 240))]"
           "printed_capacities example_output ''AUS-QLD'' = Some []"
    by (simp_all add: printed_capacities_def example_output_def merged_entry_def)
  from printed_capacity_rounds_decimal_total [OF a example_parsed z(1), of "''hydro''"]
  obtain total printed where
    1: "for_each dec_add (DFin 0)
          (zone_contributions reject_decimal ''NSW1'' ''hydro'' example_facilities) = Inr total"
    and p: "printed_capacities example_output ''AUS-NSW'' = Some printed"
    and 2: "\<forall>qs. zone_contributions reject_decimal ''NSW1'' ''hydro'' example_facilities =
                   map DFin qs \<and> qs \<noteq> [] \<and> exact_steps 0 qs \<and>
                   b64 (sum_list qs) = FFin (sum_list qs) \<longrightarrow>
                 total = DFin (sum_list qs) \<and>
                 map_of printed ''hydro'' = Some (JFloat (b64 (two_places (sum_list qs))))"
    by blast
  from p have printed: "printed = [(''hydro'', JFloat (FFin 240))]"
    by (simp only: pe option.inject)
  from 2 [rule_format, of "[240]"] c(1) e b
  have 3: "total = DFin (sum_list [240])"
    and 4: "map_of [(''hydro'', JFloat (FFin 240))] ''hydro'' =
              Some (JFloat (b64 (two_places (sum_list [240]))))"
    unfolding printed by simp_all
  from 1 have 5: "for_each dec_add (DFin 0) (map DFin [240]) = Inr (DFin (sum_list [240]))"
    by (simp only: c 3)
  have 6: "map_of ([] :: (string \<times> json) list) ''hydro'' = None"
    by simp
  from a example_parsed z c e b 5 r pe 4 6 show ?thesis
    by blast
qed



theorem output_dict_six_keys_witness:
  "output_dict ((OpenNEMZone_init ''SA1'')\<lparr>capacity := [(''battery storage'', DFin 100)]\<rparr>) =
     Inr (merged_entry ''SA1'' [(''battery storage'', JFloat (FFin 100))]) \<and>
   map fst (merged_entry ''SA1'' [(''battery storage'', JFloat (FFin 100))]) =
     [''bounding_box'', ''capacity'', ''contributors'', ''flag_file_name'', ''parsers'',
      ''timezone''] \<and>
   map_of (merged_entry ''SA1'' [(''battery storage'', JFloat (FFin 100))]) ''bounding_box'' =
     map_of STATE_BOUNDING_BOXES ''SA1'' \<and>
   map_of (merged_entry ''SA1'' [(''battery storage'', JFloat (FFin 100))]) ''capacity'' =
     Some (JObj [(''battery storage'', JFloat (FFin 100))]) \<and>
   map_of (merged_entry ''SA1'' [(''battery storage'', JFloat (FFin 100))]) ''timezone'' =
     Some JNull"
proof -
  have h: "output_dict
             ((OpenNEMZone_init ''SA1'')\<lparr>capacity := [(''battery storage'', DFin 100)]\<rparr>) =
           Inr (merged_entry ''SA1'' [(''battery storage'', JFloat (FFin 100))])"
    by (simp add: output_dict_def merged_entry_def boilerplate_merge OpenNEMZone_init_def
        STATE_BOUNDING_BOXES_def rounded_capacity_battery)
  from output_dict_six_keys [OF h] h show ?thesis
    by (simp add: OpenNEMZone_init_def rounded_capacity_battery)
qed

theorem http_get_iff_cache_to_refresh_witness:
  "isl (example_json_loads []) \<and>
   fresh_valid_cache example_json_loads (cached_env ''registry'') \<and>
   \<not> cache_to_refresh example_json_loads (cached_env ''registry'') \<and>
   HttpGet REGISTRY_URL \<notin>
     set (fst (main example_json_loads reject_decimal (cached_env ''registry''))) \<and>
   load_facility_data example_json_loads (cached_env ''registry'') =
     (Inr ''registry'', [ReadFile CACHE_FILE]) \<and>
   cache_to_refresh example_json_loads stale_env \<and>
   HttpGet REGISTRY_URL \<in> set (fst (main example_json_loads reject_decimal stale_env)) \<and>
   load_facility_data example_json_loads stale_env =
     (Inr ''registry with NT1'',
      [HttpGet REGISTRY_URL, WriteFile CACHE_FILE ''registry with NT1'']) \<and>
   cache_to_refresh example_json_loads (cached_env ''not JSON'') \<and>
   HttpGet REGISTRY_URL \<in>
     set (fst (main example_json_loads reject_decimal (cached_env ''not JSON''))) \<and>
   load_facility_data example_json_loads (cached_env ''not JSON'') =
     (Inr [], [ReadFile CACHE_FILE, HttpGet REGISTRY_URL, WriteFile CACHE_FILE []]) \<and>
   isl (nesting_json_loads []) \<and>
   \<not> fresh_valid_cache nesting_json_loads (cached_env deep_text) \<and>
   \<not> cache_to_refresh nesting_json_loads (cached_env deep_text) \<and>
   cache_failure nesting_json_loads (cached_env deep_text) = Some RecursionError \<and>
   HttpGet REGISTRY_URL \<notin>
     set (fst (main nesting_json_loads reject_decimal (cached_env deep_text))) \<and>
   snd (main nesting_json_loads reject_decimal (cached_env deep_text)) = Inl RecursionError"
proof -
  have h: "isl (example_json_loads [])"
    by (simp add: example_json_loads_def)
  have f: "fresh_valid_cache example_json_loads (cached_env ''registry'')"
    by (simp add: fresh_valid_cache_def cached_env_def example_json_loads_def seven_days_def)
  have s: "cache_to_refresh example_json_loads stale_env"
          "\<not> fresh_valid_cache example_json_loads stale_env"
    by (simp_all add: cache_to_refresh_def fresh_valid_cache_def stale_env_def seven_days_def)
  have n: "cache_to_refresh example_json_loads (cached_env ''not JSON'')"
          "\<not> fresh_valid_cache example_json_loads (cached_env ''not JSON'')"
    by (simp_all add: cache_to_refresh_def fresh_valid_cache_def cached_env_def
        example_json_loads_def seven_days_def)
  have t: "file_text (cached_env ''registry'') = Inr ''registry''"
          "response_text stale_env = Inr ''registry with NT1''"
          "write_error stale_env = None"
          "response_text (cached_env ''not JSON'') = Inr []"
          "write_error (cached_env ''not JSON'') = None"
    by (simp_all add: cached_env_def stale_env_def)
  have ls: "snd (load_facility_data example_json_loads stale_env) =
              [HttpGet REGISTRY_URL, WriteFile CACHE_FILE ''registry with NT1'']"
    by (simp add: load_facility_data_def load_from_cache_def refresh_def stale_env_def
        seven_days_def)
  have ln: "snd (load_facility_data example_json_loads (cached_env ''not JSON'')) =
              [ReadFile CACHE_FILE, HttpGet REGISTRY_URL, WriteFile CACHE_FILE []]"
    by (simp add: load_facility_data_def load_from_cache_def refresh_def cached_env_def
        example_json_loads_def seven_days_def)
  have hd: "isl (nesting_json_loads [])"
    by (simp add: nesting_json_loads_def)
  have d: "\<not> fresh_valid_cache nesting_json_loads (cached_env deep_text)"
          "\<not> cache_to_refresh nesting_json_loads (cached_env deep_text)"
          "cache_failure nesting_json_loads (cached_env deep_text) = Some RecursionError"
    by (simp_all add: fresh_valid_cache_def cache_to_refresh_def cache_failure_def
        cached_env_def nesting_json_loads_def seven_days_def)
  from http_get_iff_cache_to_refresh [where json_loads = example_json_loads
      and dlib = reject_decimal and env = "cached_env ''registry''", OF h] f
  have 1: "\<not> cache_to_refresh example_json_loads (cached_env ''registry'') \<and>
     HttpGet REGISTRY_URL \<notin>
       set (fst (main example_json_loads reject_decimal (cached_env ''registry''))) \<and>
     load_facility_data example_json_loads (cached_env ''registry'') =
       (Inr ''registry'', [ReadFile CACHE_FILE])"
    by (auto simp: t fresh_valid_not_to_refresh)
  from http_get_iff_cache_to_refresh [where json_loads = example_json_loads
      and dlib = reject_decimal and env = stale_env, OF h] s ls
  have 2: "HttpGet REGISTRY_URL \<in> set (fst (main example_json_loads reject_decimal stale_env)) \<and>
     load_facility_data example_json_loads stale_env =
       (Inr ''registry with NT1'',
        [HttpGet REGISTRY_URL, WriteFile CACHE_FILE ''registry with NT1''])"
    by (auto simp: t)
  from http_get_iff_cache_to_refresh [where json_loads = example_json_loads
      and dlib = reject_decimal and env = "cached_env ''not JSON''", OF h] n ln
  have 3: "HttpGet REGISTRY_URL \<in>
       set (fst (main example_json_loads reject_decimal (cached_env ''not JSON''))) \<and>
     load_facility_data example_json_loads (cached_env ''not JSON'') =
       (Inr [], [ReadFile CACHE_FILE, HttpGet REGISTRY_URL, WriteFile CACHE_FILE []])"
    by (auto simp: t)
  from http_get_iff_cache_to_refresh [where json_loads = nesting_json_loads
      and dlib = reject_decimal and env = "cached_env deep_text", OF hd] d
  have 4: "HttpGet REGISTRY_URL \<notin>
       set (fst (main nesting_json_loads reject_decimal (cached_env deep_text))) \<and>
     snd (main nesting_json_loads reject_decimal (cached_env deep_text)) = Inl RecursionError"
    by auto
  from h f 1 s(1) 2 n(1) 3 hd d 4 show ?thesis
    by blast
qed

theorem printed_entries_witness:
  "snd (main example_json_loads reject_decimal (cached_env ''registry'')) = Inr example_output \<and>
   keys_sorted example_output \<and>
   (\<exists>facs zones members.
      parsed_facilities example_json_loads (cached_env ''registry'') = Inr (JObj facs) \<and>
      for_each (process_facility reject_decimal) zones_init facs = Inr zones \<and>
      example_output = JObj members \<and>
      list_all2 printed_as zones members)"
proof -
  have a: "snd (main example_json_loads reject_decimal (cached_env ''registry'')) =
             Inr example_output"
    by (simp add: example_run)
  from printed_entries [OF a] a show ?thesis
    by blast
qed

text \<open>C4 as stated fails: the bounding box that is printed is not computed from the
  facility data. For a commissioned station in \<open>NSW1\<close> with a location, processing the
  facility leaves the zone's \<open>bounding_box\<close> attribute at \<open>[[None, None], [None, None]]\<close>;
  \<open>update_bounds\<close> on the facility's location would give the box of that location; and
  \<open>output\<close> returns the box of \<open>STATE_BOUNDING_BOXES\<close>, which is a different one.\<close>

theorem bounding_box_not_from_facility_data:
  "update_from_facility_data reject_decimal (OpenNEMZone_init ''NSW1'') (JObj sydney_station) =
     Inr sydney_zone \<and>
   bounding_box sydney_zone = ((JNull, JNull), (JNull, JNull)) \<and>
   subscript (JObj sydney_station) ''location'' = Inr sydney_location \<and>
   update_bounds reject_compare sydney_zone sydney_location =
     Inr (sydney_zone\<lparr>bounding_box :=
            ((JFloat (FFin (605 / 4)), JFloat (FFin (- 271 / 8))),
             (JFloat (FFin (605 / 4)), JFloat (FFin (- 271 / 8))))\<rparr>) \<and>
   output_dict sydney_zone = Inr (merged_entry ''NSW1'' [(''solar'', JFloat (FFin 10))]) \<and>
   map_of (merged_entry ''NSW1'' [(''solar'', JFloat (FFin 10))]) ''bounding_box'' =
     Some (JArr [JArr [float_lit (1482695 / 10000), float_lit (- 364196 / 10000)],
                 JArr [float_lit (1499044 / 10000), float_lit (- 346395 / 10000)]]) \<and>
   float_lit (1482695 / 10000) \<noteq> JFloat (FFin (605 / 4))"
proof -
  have 1: "update_from_facility_data reject_decimal (OpenNEMZone_init ''NSW1'')
             (JObj sydney_station) = Inr sydney_zone"
    by code_simp
  have 2: "bounding_box sydney_zone = ((JNull, JNull), (JNull, JNull))"
    by (simp add: sydney_zone_def OpenNEMZone_init_def)
  have 3: "subscript (JObj sydney_station) ''location'' = Inr sydney_location"
    by (simp add: sydney_station_def)
  have 4: "update_bounds reject_compare sydney_zone sydney_location =
     Inr (sydney_zone\<lparr>bounding_box :=
            ((JFloat (FFin (605 / 4)), JFloat (FFin (- 271 / 8))),
             (JFloat (FFin (605 / 4)), JFloat (FFin (- 271 / 8))))\<rparr>)"
    by code_simp
  have r: "round_float_2 (DFin 10) = Inr (JFloat (FFin 10))"
    by code_simp
  have 5: "output_dict sydney_zone = Inr (merged_entry ''NSW1'' [(''solar'', JFloat (FFin 10))])"
    by (simp add: output_dict_def merged_entry_def boilerplate_merge sydney_zone_def
        OpenNEMZone_init_def STATE_BOUNDING_BOXES_def rounded_capacity_def r)
  have 6: "map_of (merged_entry ''NSW1'' [(''solar'', JFloat (FFin 10))]) ''bounding_box'' =
     Some (JArr [JArr [float_lit (1482695 / 10000), float_lit (- 364196 / 10000)],
                 JArr [float_lit (1499044 / 10000), float_lit (- 346395 / 10000)]])"
    by (simp add: merged_entry_def STATE_BOUNDING_BOXES_def)
  have 7: "float_lit (1482695 / 10000) \<noteq> JFloat (FFin (605 / 4))"
    by code_simp
  from 1 2 3 4 5 6 7 show ?thesis
    by blast
qed

text \<open>C5 as stated fails. The cache file is one day old and holds 100000 opening
  brackets. It is not a fresh valid cache, its contents do not parse; yet the run issues
  no GET: \<open>json.loads\<close> raises \<open>RecursionError\<close>, which the \<open>except\<close> clause does not
  catch, and the run ends there, after the read of the file.\<close>

theorem fresh_unparseable_cache_not_fetched:
  "isl (nesting_json_loads []) \<and>
   file_exists (cached_env deep_text) \<and>
   file_then (cached_env deep_text) = Inr 0 \<and>
   clock_now (cached_env deep_text) - 0 < seven_days \<and>
   file_text (cached_env deep_text) = Inr deep_text \<and>
   nesting_json_loads deep_text = Inl RecursionError \<and>
   \<not> fresh_valid_cache nesting_json_loads (cached_env deep_text) \<and>
   main nesting_json_loads reject_decimal (cached_env deep_text) =
     ([ReadFile CACHE_FILE], Inl RecursionError) \<and>
   HttpGet REGISTRY_URL \<notin>
     set (fst (main nesting_json_loads reject_decimal (cached_env deep_text)))"
proof -
  have 1: "isl (nesting_json_loads [])"
    by (simp add: nesting_json_loads_def)
  have 2: "file_exists (cached_env deep_text)"
          "file_then (cached_env deep_text) = Inr 0"
          "clock_now (cached_env deep_text) - 0 < seven_days"
          "file_text (cached_env deep_text) = Inr deep_text"
    by (simp_all add: cached_env_def seven_days_def)
  have 3: "nesting_json_loads deep_text = Inl RecursionError"
    by (simp add: nesting_json_loads_def)
  have 4: "\<not> fresh_valid_cache nesting_json_loads (cached_env deep_text)"
    by (simp add: fresh_valid_cache_def cached_env_def nesting_json_loads_def seven_days_def)
  have 5: "main nesting_json_loads reject_decimal (cached_env deep_text) =
     ([ReadFile CACHE_FILE], Inl RecursionError)"
    by (simp add: main_def parsed_facilities_def load_facility_data_def load_from_cache_def
        cached_env_def nesting_json_loads_def seven_days_def)
  then have 6: "HttpGet REGISTRY_URL \<notin>
     set (fst (main nesting_json_loads reject_decimal (cached_env deep_text)))"
    by simp
  from 1 2 3 4 5 6 show ?thesis
    by blast
qed



end
